theory Spec2Isabelle
  imports Complex_Main
begin

section \<open>InstantNav: a shallow embedding of the prediction and prefetch core\<close>

text \<open>
  The development follows the JavaScript sources: the context manager
  (\<^verbatim>\<open>background/context-manager.js\<close>), the cursor tracker (\<^verbatim>\<open>content/tracker.js\<close>),
  the prefetcher (\<^verbatim>\<open>background/prefetcher.js\<close>, the revision with state persistence
  and URL normalisation), the trust list, the service worker
  (\<^verbatim>\<open>background/service-worker.js\<close>) and the link predictor
  (\<^verbatim>\<open>content/predictor.js\<close>).

  JavaScript numbers are modelled by \<^typ>\<open>real\<close> (scores, coordinates, telemetry) and by
  \<^typ>\<open>int\<close> (the millisecond clock \<^verbatim>\<open>Date.now()\<close>). The tracker's intention score,
  whose value depends on rounding, is given twice: in exact arithmetic and with every
  operation rounded to binary64. Infinities, NaN and subnormal numbers are outside the
  model. Each mutable object is a record that an operation takes and returns. The
  prefetcher's asynchronous methods are given twice as well: run to completion, and in the
  phases between their \<^verbatim>\<open>await\<close> points, so that two calls can overlap.
\<close>

subsection \<open>Context manager\<close>

datatype profile_name = Turbo | Balanced | Eco

datatype mode = Manual profile_name | Auto

record profile =
  maxPrerender :: nat
  maxPrefetch :: nat
  prerenderThreshold :: real
  prefetchThreshold :: real
  preconnectThreshold :: real

record battery_info =
  charging :: bool
  level :: real

record network_info =
  ntype :: string
  downlink :: real
  saveData :: bool

record context_data =
  battery :: battery_info
  network :: network_info
  usedPercent :: real

record context_manager =
  currentMode :: mode
  contextData :: context_data
  effectiveMode :: "profile_name option"

text \<open>The static table \<^verbatim>\<open>this.profiles\<close>.\<close>

fun profiles :: "profile_name \<Rightarrow> profile" where
  "profiles Turbo = \<lparr>maxPrerender = 3, maxPrefetch = 10, prerenderThreshold = 70,
     prefetchThreshold = 50, preconnectThreshold = 30\<rparr>"
| "profiles Balanced = \<lparr>maxPrerender = 1, maxPrefetch = 5, prerenderThreshold = 80,
     prefetchThreshold = 60, preconnectThreshold = 40\<rparr>"
| "profiles Eco = \<lparr>maxPrerender = 0, maxPrefetch = 2, prerenderThreshold = 100,
     prefetchThreshold = 85, preconnectThreshold = 70\<rparr>"

text \<open>
  The constructor: mode \<^verbatim>\<open>'auto'\<close>, optimistic telemetry defaults, \<^verbatim>\<open>_effectiveMode\<close> not
  yet assigned (\<^const>\<open>None\<close>). The initial \<^verbatim>\<open>network\<close> object has no \<^verbatim>\<open>saveData\<close> field, which
  reads as falsy.
\<close>

definition new_context_manager :: context_manager where
  "new_context_manager =
     \<lparr>currentMode = Auto,
      contextData = \<lparr>battery = \<lparr>charging = True, level = 1\<rparr>,
                     network = \<lparr>ntype = ''wifi'', downlink = 10, saveData = False\<rparr>,
                     usedPercent = 1 / 2\<rparr>,
      effectiveMode = None\<rparr>"

definition recalculateMode :: "context_manager \<Rightarrow> context_manager" where
  "recalculateMode cm =
     (if currentMode cm \<noteq> Auto then cm
      else
        let b = battery (contextData cm);
            n = network (contextData cm);
            m = usedPercent (contextData cm)
        in cm\<lparr>effectiveMode := Some
             (if (\<not> charging b \<and> level b < 2 / 10) \<or> saveData n \<or> ntype n = ''2g''
                  \<or> ntype n = ''slow-2g'' \<or> m > 8 / 10
              then Eco
              else if charging b \<and> (ntype n = ''4g'' \<or> downlink n > 5) \<and> m < 5 / 10
              then Turbo
              else Balanced)\<rparr>)"





text \<open>\<^verbatim>\<open>setMode(mode)\<close>: one of the four names is stored, anything else is ignored.\<close>

definition mode_of_string :: "string \<Rightarrow> mode option" where
  "mode_of_string s =
     (if s = ''turbo'' then Some (Manual Turbo)
      else if s = ''balanced'' then Some (Manual Balanced)
      else if s = ''eco'' then Some (Manual Eco)
      else if s = ''auto'' then Some Auto
      else None)"

definition setMode :: "string \<Rightarrow> context_manager \<Rightarrow> context_manager" where
  "setMode s cm =
     (case mode_of_string s of
        None \<Rightarrow> cm
      | Some m \<Rightarrow> recalculateMode (cm\<lparr>currentMode := m\<rparr>))"

definition getProfile :: "context_manager \<Rightarrow> profile" where
  "getProfile cm =
     profiles (case currentMode cm of
                 Auto \<Rightarrow> (case effectiveMode cm of None \<Rightarrow> Balanced | Some m \<Rightarrow> m)
               | Manual m \<Rightarrow> m)"




subsection \<open>Cursor tracker\<close>

record point =
  px :: real
  py :: real

record vel =
  vx :: real
  vy :: real

text \<open>
  Of the tracker's fields, the record keeps those that \<^verbatim>\<open>getData\<close> and
  \<^verbatim>\<open>getIntentionScore\<close> read.
\<close>

record tracker =
  position :: point
  velocity :: vel
  lastVelocity :: vel

text \<open>\<^verbatim>\<open>getIntentionScore(targetX, targetY)\<close>.\<close>

definition getIntentionScore :: "tracker \<Rightarrow> real \<Rightarrow> real \<Rightarrow> real" where
  "getIntentionScore t targetX targetY =
     (let dx = targetX - px (position t);
          dy = targetY - py (position t);
          distance = sqrt (dx * dx + dy * dy)
      in if distance = 0 then 1
         else
           let toTargetX = dx / distance;
               toTargetY = dy / distance;
               speed = sqrt ((vx (velocity t))\<^sup>2 + (vy (velocity t))\<^sup>2)
           in if speed = 0 then 0
              else
                let velocityX = vx (velocity t) / speed;
                    velocityY = vy (velocity t) / speed
                in toTargetX * velocityX + toTargetY * velocityY)"

text \<open>
  Binary64 arithmetic. A JavaScript operation returns the double nearest to the exact
  result, ties going to the even significand. \<open>fl64\<close> rounds a real to 53 significant
  bits in that way; the exponent is not bounded, so overflow and subnormal numbers are
  not represented.
\<close>

definition nearest_even :: "real \<Rightarrow> int" where
  "nearest_even r =
     (let f = \<lfloor>r\<rfloor>
      in if r - of_int f < 1 / 2 then f
         else if r - of_int f > 1 / 2 then f + 1
         else if even f then f else f + 1)"

text \<open>The exponent of the unit in the last place of the doubles around \<open>x\<close>.\<close>

definition ulp_exponent :: "real \<Rightarrow> int" where
  "ulp_exponent x = \<lfloor>log 2 \<bar>x\<bar>\<rfloor> - 52"

definition fl64 :: "real \<Rightarrow> real" where
  "fl64 x =
     (if x = 0 then 0
      else of_int (nearest_even (x / 2 powr of_int (ulp_exponent x)))
           * 2 powr of_int (ulp_exponent x))"

text \<open>
  The magnitudes at which no operation of \<^verbatim>\<open>getIntentionScore\<close> overflows or underflows, so
  that \<open>fl64\<close> of an exact result is the double the operation returns: zero, or between
  \<open>2\<^sup>-\<^sup>1\<^sup>0\<^sup>0\<close> and \<open>2\<^sup>1\<^sup>0\<^sup>0\<close>.
\<close>

definition in_range64 :: "real \<Rightarrow> bool" where
  "in_range64 x = (x = 0 \<or> (1 / 2 ^ 100 \<le> \<bar>x\<bar> \<and> \<bar>x\<bar> \<le> 2 ^ 100))"

text \<open>
  \<^verbatim>\<open>getIntentionScore(targetX, targetY)\<close> once more, with the rounding \<open>rnd\<close> applied to the
  result of every operation (\<^verbatim>\<open>vx ** 2\<close> is read as the product). With the identity it is the
  exact version above; with \<open>fl64\<close> it is what the tracker computes.
\<close>

definition getIntentionScoreWith :: "(real \<Rightarrow> real) \<Rightarrow> tracker \<Rightarrow> real \<Rightarrow> real \<Rightarrow> real" where
  "getIntentionScoreWith rnd t targetX targetY =
     (let dx = rnd (targetX - px (position t));
          dy = rnd (targetY - py (position t));
          distance = rnd (sqrt (rnd (rnd (dx * dx) + rnd (dy * dy))))
      in if distance = 0 then 1
         else
           let toTargetX = rnd (dx / distance);
               toTargetY = rnd (dy / distance);
               speed = rnd (sqrt (rnd (rnd (vx (velocity t) * vx (velocity t))
                                       + rnd (vy (velocity t) * vy (velocity t)))))
           in if speed = 0 then 0
              else
                let velocityX = rnd (vx (velocity t) / speed);
                    velocityY = rnd (vy (velocity t) / speed)
                in rnd (rnd (toTargetX * velocityX) + rnd (toTargetY * velocityY)))"

definition getIntentionScore64 :: "tracker \<Rightarrow> real \<Rightarrow> real \<Rightarrow> real" where
  "getIntentionScore64 = getIntentionScoreWith fl64"

text \<open>
  In the words of the specification: the unit vector of a vector and the dot product of
  two vectors, each operation rounded to binary64.
\<close>

definition unit64 :: "real \<times> real \<Rightarrow> real \<times> real" where
  "unit64 v =
     (let n = fl64 (sqrt (fl64 (fl64 (fst v * fst v) + fl64 (snd v * snd v))))
      in (fl64 (fst v / n), fl64 (snd v / n)))"

definition dot64 :: "real \<times> real \<Rightarrow> real \<times> real \<Rightarrow> real" where
  "dot64 u w = fl64 (fl64 (fst u * fst w) + fl64 (snd u * snd w))"

subsection \<open>URLs\<close>

text \<open>
  The sources take URLs apart with the host's \<^verbatim>\<open>new URL(url)\<close>, which either throws or
  yields the components read here. The operations below take that parser as a parameter
  \<open>P\<close> (\<^const>\<open>None\<close> when the constructor throws).
\<close>

record url_parts =
  origin :: string
  hostname :: string
  pathname :: string
  search :: string

type_synonym url_parser = "string \<Rightarrow> url_parts option"

definition startsWith :: "string \<Rightarrow> string \<Rightarrow> bool" where
  "startsWith s p = (take (length p) s = p)"

definition endsWith :: "string \<Rightarrow> string \<Rightarrow> bool" where
  "endsWith s p = (length p \<le> length s \<and> drop (length s - length p) s = p)"

text \<open>
  A parser for the concrete inputs: what the host's parser returns on an absolute
  \<^verbatim>\<open>http\<close> or \<^verbatim>\<open>https\<close> URL that is already in serialised form (as \<^verbatim>\<open>anchor.href\<close> is):
  the fragment is cut off, the query runs from the first \<^verbatim>\<open>?\<close> (a lone \<^verbatim>\<open>?\<close> is an empty
  query), the authority ends at the first \<^verbatim>\<open>/\<close>, an empty path reads \<^verbatim>\<open>/\<close>. Everything
  else is rejected.
\<close>

definition parseURL :: url_parser where
  "parseURL s =
     (let noFragment = takeWhile (\<lambda>c. c \<noteq> CHR ''#'') s;
          beforeQuery = takeWhile (\<lambda>c. c \<noteq> CHR ''?'') noFragment;
          query = dropWhile (\<lambda>c. c \<noteq> CHR ''?'') noFragment;
          scheme = (if startsWith beforeQuery ''https://'' then ''https://''
                    else if startsWith beforeQuery ''http://'' then ''http://''
                    else []);
          rest = drop (length scheme) beforeQuery;
          authority = takeWhile (\<lambda>c. c \<noteq> CHR ''/'') rest;
          path = dropWhile (\<lambda>c. c \<noteq> CHR ''/'') rest
      in if scheme = [] \<or> authority = [] then None
         else Some \<lparr>origin = scheme @ authority,
                    hostname = takeWhile (\<lambda>c. c \<noteq> CHR '':'') authority,
                    pathname = (if path = [] then ''/'' else path),
                    search = (if query = ''?'' then [] else query)\<rparr>)"

subsection \<open>Prefetcher\<close>

datatype directive = DnsPrefetch | Preconnect | Prefetch | Prerender

text \<open>An entry of \<^verbatim>\<open>prefetchedUrls\<close> and an entry of \<^verbatim>\<open>activeSpeculationRules\<close>.\<close>

record tracked =
  ptype :: directive
  ptimestamp :: int

record spec_rule =
  rtype :: directive
  rurl :: string
  rtimestamp :: int

record prefetcher =
  prefetchedUrls :: "string \<rightharpoonup> tracked"
  activeSpeculationRules :: "spec_rule list"
  maxRules :: nat

text \<open>
  What a call observes of its host: the clock \<^verbatim>\<open>Date.now()\<close>, the data-saver flag
  \<^verbatim>\<open>navigator.connection && navigator.connection.saveData\<close>, and whether the script
  injection \<^verbatim>\<open>chrome.scripting.executeScript\<close> of a new speculation rule resolves (it
  rejects, for instance, when the tab is gone). One clock reading serves a whole call.
\<close>

record host =
  now :: int
  connSaveData :: bool
  scriptOk :: bool

datatype script_error = ScriptRejected

definition new_prefetcher :: prefetcher where
  "new_prefetcher = \<lparr>prefetchedUrls = Map.empty, activeSpeculationRules = [], maxRules = 10\<rparr>"

text \<open>\<^verbatim>\<open>_normalize(url)\<close>: the fragment goes, a trailing slash of a non-root path goes.\<close>

definition normalize :: "url_parser \<Rightarrow> string \<Rightarrow> string" where
  "normalize P url =
     (case P url of
        None \<Rightarrow> url
      | Some u \<Rightarrow>
          origin u
          @ (if endsWith (pathname u) ''/'' \<and> length (pathname u) > 1
             then butlast (pathname u) else pathname u)
          @ search u)"

text \<open>\<^verbatim>\<open>_track(url, type)\<close>; the write to \<^verbatim>\<open>chrome.storage\<close> that follows is not part of the state.\<close>

definition track :: "url_parser \<Rightarrow> host \<Rightarrow> string \<Rightarrow> directive \<Rightarrow> prefetcher \<Rightarrow> prefetcher" where
  "track P h url ty pf =
     pf\<lparr>prefetchedUrls := (prefetchedUrls pf)(normalize P url \<mapsto> \<lparr>ptype = ty, ptimestamp = now h\<rparr>)\<rparr>"

text \<open>
  \<^verbatim>\<open>_removeOldestRule(tabId)\<close>: \<^verbatim>\<open>shift()\<close> takes the first rule; a failure of the removal script
  is caught and changes nothing; the index entry under the rule's own URL string is deleted.
\<close>

definition removeOldestRule :: "prefetcher \<Rightarrow> prefetcher" where
  "removeOldestRule pf =
     (case activeSpeculationRules pf of
        [] \<Rightarrow> pf
      | oldest # others \<Rightarrow>
          pf\<lparr>activeSpeculationRules := others,
             prefetchedUrls := (prefetchedUrls pf)(rurl oldest := None)\<rparr>)"

text \<open>
  \<^verbatim>\<open>_addSpeculationRule(tabId, type, url)\<close>. The injection is not guarded: when it rejects,
  the method throws after the eviction and before the \<^verbatim>\<open>push\<close>.
\<close>

definition addSpeculationRule ::
  "host \<Rightarrow> directive \<Rightarrow> string \<Rightarrow> prefetcher \<Rightarrow> script_error option \<times> prefetcher" where
  "addSpeculationRule h ty url pf =
     (let pf1 = (if length (activeSpeculationRules pf) \<ge> maxRules pf
                 then removeOldestRule pf else pf)
      in if scriptOk h
         then (None, pf1\<lparr>activeSpeculationRules :=
                 activeSpeculationRules pf1 @ [\<lparr>rtype = ty, rurl = url, rtimestamp = now h\<rparr>]\<rparr>)
         else (Some ScriptRejected, pf1))"

text \<open>
  \<^verbatim>\<open>prefetch(url, tabId)\<close>. The first test looks the URL up as it was passed; data-saver
  vetoes the call; a rejected injection is caught and logged, and nothing is tracked.
\<close>

definition prefetch :: "url_parser \<Rightarrow> host \<Rightarrow> string \<Rightarrow> prefetcher \<Rightarrow> prefetcher" where
  "prefetch P h url pf =
     (if prefetchedUrls pf url \<noteq> None then pf
      else if connSaveData h then pf
      else (case addSpeculationRule h Prefetch url pf of
              (Some e, pf1) \<Rightarrow> pf1
            | (None, pf1) \<Rightarrow> track P h url Prefetch pf1))"

text \<open>\<^verbatim>\<open>prerender(url, tabId)\<close>, the same with the other rule type.\<close>

definition prerender :: "url_parser \<Rightarrow> host \<Rightarrow> string \<Rightarrow> prefetcher \<Rightarrow> prefetcher" where
  "prerender P h url pf =
     (if prefetchedUrls pf url \<noteq> None then pf
      else if connSaveData h then pf
      else (case addSpeculationRule h Prerender url pf of
              (Some e, pf1) \<Rightarrow> pf1
            | (None, pf1) \<Rightarrow> track P h url Prerender pf1))"

text \<open>
  \<^verbatim>\<open>dnsPrefetch(url)\<close> and \<^verbatim>\<open>preconnect(url)\<close>: \<^verbatim>\<open>new URL(url).origin\<close> may throw, which is
  caught; otherwise a link hint for the origin is handed to the page and the URL is tracked.
\<close>

definition dnsPrefetch :: "url_parser \<Rightarrow> host \<Rightarrow> string \<Rightarrow> prefetcher \<Rightarrow> prefetcher" where
  "dnsPrefetch P h url pf =
     (case P url of
        None \<Rightarrow> pf
      | Some u \<Rightarrow> track P h url DnsPrefetch pf)"

definition preconnect :: "url_parser \<Rightarrow> host \<Rightarrow> string \<Rightarrow> prefetcher \<Rightarrow> prefetcher" where
  "preconnect P h url pf =
     (case P url of
        None \<Rightarrow> pf
      | Some u \<Rightarrow> track P h url Preconnect pf)"

definition wasPrefetched :: "url_parser \<Rightarrow> prefetcher \<Rightarrow> string \<Rightarrow> bool" where
  "wasPrefetched P pf url = (prefetchedUrls pf (normalize P url) \<noteq> None)"

definition getPrefetchType :: "url_parser \<Rightarrow> prefetcher \<Rightarrow> string \<Rightarrow> directive option" where
  "getPrefetchType P pf url = map_option ptype (prefetchedUrls pf (normalize P url))"

text \<open>\<^verbatim>\<open>clearOldPrefetches(maxAgeMs = 60000)\<close>, run at clock reading \<open>t\<close>.\<close>

definition clearOldPrefetches :: "int \<Rightarrow> int \<Rightarrow> prefetcher \<Rightarrow> prefetcher" where
  "clearOldPrefetches t maxAgeMs pf =
     pf\<lparr>prefetchedUrls :=
          (\<lambda>url. case prefetchedUrls pf url of
                    None \<Rightarrow> None
                  | Some d \<Rightarrow> if t - ptimestamp d > maxAgeMs then None else Some d)\<rparr>"

text \<open>
  The public operations, and a run of them in which no two calls overlap: each call
  has finished before the next one begins.
\<close>

datatype prefetcher_op =
    CallPrefetch host string
  | CallPrerender host string
  | CallDnsPrefetch host string
  | CallPreconnect host string
  | CallClearOld int int

fun apply_op :: "url_parser \<Rightarrow> prefetcher_op \<Rightarrow> prefetcher \<Rightarrow> prefetcher" where
  "apply_op P (CallPrefetch h url) pf = prefetch P h url pf"
| "apply_op P (CallPrerender h url) pf = prerender P h url pf"
| "apply_op P (CallDnsPrefetch h url) pf = dnsPrefetch P h url pf"
| "apply_op P (CallPreconnect h url) pf = preconnect P h url pf"
| "apply_op P (CallClearOld t maxAgeMs) pf = clearOldPrefetches t maxAgeMs pf"

fun run_ops :: "url_parser \<Rightarrow> prefetcher_op list \<Rightarrow> prefetcher \<Rightarrow> prefetcher" where
  "run_ops P [] pf = pf"
| "run_ops P (op # ops) pf = run_ops P ops (apply_op P op pf)"

text \<open>The operations that issue a directive.\<close>

fun is_issue :: "prefetcher_op \<Rightarrow> bool" where
  "is_issue (CallClearOld t maxAgeMs) = False"
| "is_issue _ = True"

text \<open>The capacity invariant of the rule list.\<close>

definition cap_ok :: "prefetcher \<Rightarrow> bool" where
  "cap_ok pf = (maxRules pf = 10 \<and> length (activeSpeculationRules pf) \<le> 10)"

text \<open>
  The same two methods in phases. An asynchronous call runs until it awaits a script of
  the page and continues when that script has settled; in between, other calls run. A
  call of \<^verbatim>\<open>prefetch\<close> or \<^verbatim>\<open>prerender\<close> is suspended either in \<^verbatim>\<open>_removeOldestRule\<close>, after the
  \<^verbatim>\<open>shift()\<close> and before the index entry of the removed rule is deleted, or in
  \<^verbatim>\<open>_addSpeculationRule\<close>, after the capacity test and before the \<^verbatim>\<open>push\<close>.
\<close>

datatype suspended =
    AwaitRemoval directive string string
  | AwaitInjection directive string

text \<open>
  From the call to its first \<^verbatim>\<open>await\<close>: the two early returns, the capacity test and, at
  capacity, the \<^verbatim>\<open>shift()\<close>.
\<close>

definition call_begin ::
  "directive \<Rightarrow> host \<Rightarrow> string \<Rightarrow> prefetcher \<Rightarrow> prefetcher \<times> suspended option" where
  "call_begin ty h url pf =
     (if prefetchedUrls pf url \<noteq> None then (pf, None)
      else if connSaveData h then (pf, None)
      else if length (activeSpeculationRules pf) \<ge> maxRules pf
      then (case activeSpeculationRules pf of
              [] \<Rightarrow> (pf, Some (AwaitInjection ty url))
            | oldest # others \<Rightarrow>
                (pf\<lparr>activeSpeculationRules := others\<rparr>,
                 Some (AwaitRemoval ty url (rurl oldest))))
      else (pf, Some (AwaitInjection ty url)))"

text \<open>
  From a settled script to the next \<^verbatim>\<open>await\<close> or to the end of the call. After the removal
  script: the index entry is deleted and the injection is started. After the injection
  script: the rule is pushed and the URL tracked, or, if the script was rejected, nothing.
\<close>

fun call_resume ::
  "url_parser \<Rightarrow> suspended \<Rightarrow> host \<Rightarrow> prefetcher \<Rightarrow> prefetcher \<times> suspended option" where
  "call_resume P (AwaitRemoval ty url oldestUrl) h pf =
     (pf\<lparr>prefetchedUrls := (prefetchedUrls pf)(oldestUrl := None)\<rparr>,
      Some (AwaitInjection ty url))"
| "call_resume P (AwaitInjection ty url) h pf =
     (if scriptOk h
      then (track P h url ty
              (pf\<lparr>activeSpeculationRules :=
                    activeSpeculationRules pf @ [\<lparr>rtype = ty, rurl = url, rtimestamp = now h\<rparr>]\<rparr>),
            None)
      else (pf, None))"

text \<open>
  The service worker with its calls in flight: the message listener starts
  \<^verbatim>\<open>_handlePredictions\<close> for every message without awaiting it, so a call can begin while
  others are suspended. An event begins call \<open>i\<close> or settles the script call \<open>i\<close> awaits.
\<close>

record worker =
  w_prefetcher :: prefetcher
  w_suspended :: "nat \<rightharpoonup> suspended"

datatype worker_event =
    Begin nat directive host string
  | Settle nat host

fun worker_step :: "url_parser \<Rightarrow> worker_event \<Rightarrow> worker \<Rightarrow> worker" where
  "worker_step P (Begin i ty h url) w =
     (case call_begin ty h url (w_prefetcher w) of
        (pf, k) \<Rightarrow> \<lparr>w_prefetcher = pf, w_suspended = (w_suspended w)(i := k)\<rparr>)"
| "worker_step P (Settle i h) w =
     (case w_suspended w i of
        None \<Rightarrow> w
      | Some k \<Rightarrow>
          (case call_resume P k h (w_prefetcher w) of
             (pf, k') \<Rightarrow> \<lparr>w_prefetcher = pf, w_suspended = (w_suspended w)(i := k')\<rparr>))"

fun run_worker :: "url_parser \<Rightarrow> worker_event list \<Rightarrow> worker \<Rightarrow> worker" where
  "run_worker P [] w = w"
| "run_worker P (ev # evs) w = run_worker P evs (worker_step P ev w)"

definition idle :: "prefetcher \<Rightarrow> worker" where
  "idle pf = \<lparr>w_prefetcher = pf, w_suspended = Map.empty\<rparr>"

subsection \<open>Trust list\<close>

definition DEFAULT_TRUSTED :: "string list" where
  "DEFAULT_TRUSTED =
     [''github.com'', ''stackoverflow.com'', ''wikipedia.org'', ''youtube.com'', ''reddit.com'']"

definition KNOWN_TRACKERS :: "string list" where
  "KNOWN_TRACKERS =
     [''doubleclick.net'', ''googlesyndication.com'', ''facebook.net'', ''analytics.google.com'']"

definition BLACKLISTED :: "string list" where
  "BLACKLISTED =
     [''google.com'', ''www.google.com'', ''accounts.google.com'', ''myaccount.google.com'',
      ''recaptcha.net'', ''bankofamerica.com'', ''chase.com'', ''paypal.com'']"

text \<open>\<^verbatim>\<open>this.trustLevels\<close>: domain to level name, as set by the user.\<close>

record trust_list =
  trustLevels :: "string \<rightharpoonup> string"

definition new_trust_list :: trust_list where
  "new_trust_list = \<lparr>trustLevels = Map.empty\<rparr>"

text \<open>\<^verbatim>\<open>_extractDomain(url)\<close>: the host name without a leading \<^verbatim>\<open>www.\<close>, or the input itself.\<close>

definition extractDomain :: "url_parser \<Rightarrow> string \<Rightarrow> string" where
  "extractDomain P url =
     (case P url of
        None \<Rightarrow> url
      | Some u \<Rightarrow> if startsWith (hostname u) ''www.'' then drop 4 (hostname u) else hostname u)"

text \<open>The test shared by \<^verbatim>\<open>_isKnownTracker\<close>, \<^verbatim>\<open>_isBlacklisted\<close> and \<^verbatim>\<open>_isDefaultTrusted\<close>.\<close>

definition listed :: "string list \<Rightarrow> string \<Rightarrow> bool" where
  "listed entries domain =
     list_ex (\<lambda>e. domain = e \<or> endsWith domain (CHR ''.'' # e)) entries"

definition isKnownTracker :: "string \<Rightarrow> bool" where
  "isKnownTracker domain = listed KNOWN_TRACKERS domain"

definition isBlacklisted :: "string \<Rightarrow> bool" where
  "isBlacklisted domain = listed BLACKLISTED domain"

definition isDefaultTrusted :: "string \<Rightarrow> bool" where
  "isDefaultTrusted domain = listed DEFAULT_TRUSTED domain"

text \<open>\<^verbatim>\<open>getTrustLevel(url)\<close>; an explicit setting counts when it is a non-empty string.\<close>

definition getTrustLevel :: "url_parser \<Rightarrow> trust_list \<Rightarrow> string \<Rightarrow> string" where
  "getTrustLevel P trust url =
     (let domain = extractDomain P url;
          explicit = (case trustLevels trust domain of None \<Rightarrow> [] | Some l \<Rightarrow> l)
      in if explicit \<noteq> [] then explicit
         else if isKnownTracker domain then ''untrusted''
         else if isBlacklisted domain then ''untrusted''
         else if isDefaultTrusted domain then ''trusted''
         else ''neutral'')"

definition canPrefetch :: "url_parser \<Rightarrow> trust_list \<Rightarrow> string \<Rightarrow> bool" where
  "canPrefetch P trust url =
     (let lvl = getTrustLevel P trust url in lvl = ''trusted'' \<or> lvl = ''neutral'')"

definition canPrerender :: "url_parser \<Rightarrow> trust_list \<Rightarrow> string \<Rightarrow> bool" where
  "canPrerender P trust url = (let lvl = getTrustLevel P trust url in lvl = ''trusted'')"

subsection \<open>Service worker\<close>

text \<open>
  The service owns a prefetcher, a context manager and its counters; it holds no trust
  list. A \<^verbatim>\<open>PREDICTION_UPDATE\<close> message carries links \<^verbatim>\<open>{url, score}\<close>.
\<close>

record link_msg =
  link_url :: string
  link_score :: real

record service =
  svc_prefetcher :: prefetcher
  svc_contextManager :: context_manager
  totalPrefetches :: nat

definition new_service :: service where
  "new_service = \<lparr>svc_prefetcher = new_prefetcher, svc_contextManager = new_context_manager,
                   totalPrefetches = 0\<rparr>"

text \<open>
  The loop of \<^verbatim>\<open>_handlePredictions(links, tabId)\<close> under the profile read before it. Each
  link comes with what the host shows when its turn comes.
\<close>

fun handleLinks :: "url_parser \<Rightarrow> profile \<Rightarrow> (host \<times> link_msg) list \<Rightarrow> service \<Rightarrow> service" where
  "handleLinks P pr [] svc = svc"
| "handleLinks P pr ((h, link) # rest) svc =
     handleLinks P pr rest
       (if link_score link \<ge> prerenderThreshold pr \<and> maxPrerender pr > 0
        then svc\<lparr>svc_prefetcher := prerender P h (link_url link) (svc_prefetcher svc),
                 totalPrefetches := totalPrefetches svc + 1\<rparr>
        else if link_score link \<ge> prefetchThreshold pr \<and> maxPrefetch pr > 0
        then svc\<lparr>svc_prefetcher := prefetch P h (link_url link) (svc_prefetcher svc),
                 totalPrefetches := totalPrefetches svc + 1\<rparr>
        else if link_score link \<ge> preconnectThreshold pr
        then svc\<lparr>svc_prefetcher := preconnect P h (link_url link) (svc_prefetcher svc)\<rparr>
        else if link_score link \<ge> 30
        then svc\<lparr>svc_prefetcher := dnsPrefetch P h (link_url link) (svc_prefetcher svc)\<rparr>
        else svc)"

definition handlePredictions :: "url_parser \<Rightarrow> (host \<times> link_msg) list \<Rightarrow> service \<Rightarrow> service" where
  "handlePredictions P links svc = handleLinks P (getProfile (svc_contextManager svc)) links svc"

subsection \<open>Link predictor\<close>

record rect =
  r_left :: real
  r_top :: real
  r_width :: real
  r_height :: real

text \<open>
  An entry of \<^verbatim>\<open>this.links\<close>; the anchor element is known by an identity. The map iterates in
  insertion order, so the catalogue is a list.
\<close>

record link_data =
  l_element :: nat
  l_url :: string
  l_rect :: rect
  l_isVisible :: bool
  l_score :: real

record breakdown =
  fittsScore :: real
  intentionScore :: real
  proximityScore :: real
  contextScore :: real
  historyScore :: real

record score_record =
  s_score :: real
  s_timestamp :: real
  s_breakdown :: breakdown

text \<open>An entry of the batch's \<^verbatim>\<open>results\<close>.\<close>

record scored =
  res_url :: string
  res_element :: nat
  res_score :: real

text \<open>
  The predictor. \<^verbatim>\<open>graceTimers\<close> maps a URL to the handle \<^verbatim>\<open>setTimeout\<close> returned.
  \<open>pendingTimeouts\<close> is the host's queue of the timeouts this object has created and that
  have not fired yet, each with the URL its callback deletes; \<open>nextHandle\<close> is the next
  handle the host hands out. \<^verbatim>\<open>isCharging\<close> is unassigned (\<^const>\<open>None\<close>) until the battery
  query resolves.
\<close>

record predictor =
  links :: "link_data list"
  scores :: "string \<rightharpoonup> score_record"
  graceTimers :: "string \<rightharpoonup> nat"
  historyCache :: "string \<rightharpoonup> real"
  lastBatchTime :: real
  isCharging :: "bool option"
  pendingTimeouts :: "(nat \<times> string) list"
  nextHandle :: nat

definition new_predictor :: predictor where
  "new_predictor =
     \<lparr>links = [], scores = Map.empty, graceTimers = Map.empty, historyCache = Map.empty,
      lastBatchTime = 0, isCharging = None, pendingTimeouts = [], nextHandle = 0\<rparr>"

text \<open>The snapshot \<^verbatim>\<open>getData()\<close> that the tracker hands to its listeners.\<close>

record cursor_data =
  c_position :: point
  c_velocity :: vel
  c_speed :: real
  c_isDecelerating :: bool

definition getData :: "tracker \<Rightarrow> cursor_data" where
  "getData t =
     \<lparr>c_position = position t,
      c_velocity = velocity t,
      c_speed = sqrt ((vx (velocity t))\<^sup>2 + (vy (velocity t))\<^sup>2),
      c_isDecelerating =
        (sqrt ((vx (velocity t))\<^sup>2 + (vy (velocity t))\<^sup>2)
           < sqrt ((vx (lastVelocity t))\<^sup>2 + (vy (lastVelocity t))\<^sup>2) * (8 / 10))\<rparr>"

text \<open>
  What a batch reads from the page: the clock \<^verbatim>\<open>performance.now()\<close>; \<^verbatim>\<open>navigator.connection\<close>
  (its \<^verbatim>\<open>saveData\<close> and \<^verbatim>\<open>effectiveType\<close>) if there is one; whether \<^verbatim>\<open>navigator.getBattery\<close>
  exists; the global tracker and its \<^verbatim>\<open>scrollSpeed\<close> field, if it has one; the viewport size;
  and, per anchor element, whether \<^verbatim>\<open>closest\<close> finds a main-content or a navigation
  ancestor and the \<^verbatim>\<open>top\<close> of a fresh \<^verbatim>\<open>getBoundingClientRect()\<close>.
\<close>

record page =
  e_now :: real
  e_connection :: "(bool \<times> string) option"
  e_hasGetBattery :: bool
  e_tracker :: tracker
  e_scrollSpeed :: "real option"
  e_innerWidth :: real
  e_innerHeight :: real
  e_closestMain :: "nat \<Rightarrow> bool"
  e_closestNav :: "nat \<Rightarrow> bool"
  e_boundingTop :: "nat \<Rightarrow> real"

definition BATCH_INTERVAL_MS :: real where
  "BATCH_INTERVAL_MS = 80"

text \<open>\<^verbatim>\<open>_calculateFittsScore(distance, width, height)\<close>.\<close>

definition calculateFittsScore :: "real \<Rightarrow> real \<Rightarrow> real \<Rightarrow> real" where
  "calculateFittsScore distance width height =
     (let minDimension = min width height
      in if minDimension \<le> 0 then 0
         else
           let difficulty = log 2 (distance / minDimension + 1);
               k = 15
           in max 0 (min 100 (100 - difficulty * k)))"

text \<open>\<^verbatim>\<open>_getContextScore(element)\<close>.\<close>

definition getContextScore :: "page \<Rightarrow> nat \<Rightarrow> real" where
  "getContextScore pg el =
     (if e_closestMain pg el then 80
      else if e_closestNav pg el then 30
      else
        let viewportPosition = e_boundingTop pg el / e_innerHeight pg
        in 50 + (1 - viewportPosition) * 30)"

text \<open>\<^verbatim>\<open>_getHistoryScore(url)\<close>.\<close>

definition getHistoryScore :: "predictor \<Rightarrow> string \<Rightarrow> real" where
  "getHistoryScore pr url = (case historyCache pr url of Some v \<Rightarrow> v | None \<Rightarrow> 40)"

text \<open>
  \<^verbatim>\<open>_getGraceBoost(url, currentScore, cursorData)\<close>: the boost, and the predictor with the
  timer it may have started. The delay of the timeout (\<^verbatim>\<open>GRACE_PERIOD_MS\<close>, 200 ms) is not
  recorded: a pending timeout may fire at any later moment.
\<close>

definition getGraceBoost ::
  "string \<Rightarrow> real \<Rightarrow> cursor_data \<Rightarrow> predictor \<Rightarrow> real \<times> predictor" where
  "getGraceBoost url currentScore cursorData pr =
     (if c_speed cursorData < 50 \<and> currentScore > 50
      then
        if graceTimers pr url = None
        then
          (case scores pr url of
             None \<Rightarrow> (0, pr)
           | Some existingScore \<Rightarrow>
               if s_score existingScore > currentScore
               then (s_score existingScore - currentScore,
                     pr\<lparr>graceTimers := (graceTimers pr)(url \<mapsto> nextHandle pr),
                        pendingTimeouts := pendingTimeouts pr @ [(nextHandle pr, url)],
                        nextHandle := nextHandle pr + 1\<rparr>)
               else (0, pr))
        else (0, pr)
      else (0, pr))"

text \<open>
  The timeout callback of handle \<open>handle\<close> runs: the host drops it from its queue and the callback
  deletes the URL's entry of \<^verbatim>\<open>graceTimers\<close>. A handle that is not pending does nothing.
\<close>

definition timeoutFires :: "nat \<Rightarrow> predictor \<Rightarrow> predictor" where
  "timeoutFires handle pr =
     (case find (\<lambda>(k, url). k = handle) (pendingTimeouts pr) of
        None \<Rightarrow> pr
      | Some (k, url) \<Rightarrow>
          pr\<lparr>pendingTimeouts := filter (\<lambda>(k', url'). k' \<noteq> handle) (pendingTimeouts pr),
             graceTimers := (graceTimers pr)(url := None)\<rparr>)"

text \<open>
  The five factors of one catalogue entry, as the loop body of \<^verbatim>\<open>calculateScores\<close> computes
  them from the cached rectangle, the cursor snapshot and the page.
\<close>

definition linkBreakdown :: "page \<Rightarrow> cursor_data \<Rightarrow> predictor \<Rightarrow> link_data \<Rightarrow> breakdown" where
  "linkBreakdown pg cursorData pr d =
     (let centerX = r_left (l_rect d) + r_width (l_rect d) / 2;
          centerY = r_top (l_rect d) + r_height (l_rect d) / 2;
          dx = centerX - px (c_position cursorData);
          dy = centerY - py (c_position cursorData);
          distance = sqrt (dx * dx + dy * dy);
          intentionRaw = getIntentionScore (e_tracker pg) centerX centerY;
          maxDistance = sqrt ((e_innerWidth pg)\<^sup>2 + (e_innerHeight pg)\<^sup>2)
      in \<lparr>fittsScore = calculateFittsScore distance (r_width (l_rect d)) (r_height (l_rect d)),
          intentionScore = max 0 (intentionRaw * 100),
          proximityScore = max 0 (100 - (distance / maxDistance) * 100),
          contextScore = getContextScore pg (l_element d),
          historyScore = getHistoryScore pr (l_url d)\<rparr>)"

definition totalScore :: "breakdown \<Rightarrow> real" where
  "totalScore b =
     fittsScore b * (30 / 100) + intentionScore b * (30 / 100) + proximityScore b * (15 / 100)
     + contextScore b * (10 / 100) + historyScore b * (15 / 100)"

text \<open>
  One turn of the loop of \<^verbatim>\<open>calculateScores\<close>: the entry with its new \<^verbatim>\<open>score\<close>, the
  predictor, and the results so far. An invisible entry and one further than 500 px from
  the cursor are skipped.
\<close>

definition scoreLink ::
  "page \<Rightarrow> cursor_data \<Rightarrow> link_data \<Rightarrow> predictor \<times> scored list
     \<Rightarrow> link_data \<times> predictor \<times> scored list" where
  "scoreLink pg cursorData d acc =
     (let pr = fst acc;
          results = snd acc;
          dx = r_left (l_rect d) + r_width (l_rect d) / 2 - px (c_position cursorData);
          dy = r_top (l_rect d) + r_height (l_rect d) / 2 - py (c_position cursorData);
          distanceSq = dx * dx + dy * dy
      in if \<not> l_isVisible d then (d, pr, results)
         else if distanceSq > 250000 then (d, pr, results)
         else
           let b = linkBreakdown pg cursorData pr d;
               boosted = getGraceBoost (l_url d) (totalScore b) cursorData pr;
               graceBoost = fst boosted;
               pr1 = snd boosted;
               finalScore = min 100 (totalScore b + graceBoost);
               d1 = d\<lparr>l_score := finalScore\<rparr>
           in if finalScore > 30
              then (d1,
                    pr1\<lparr>scores := (scores pr1)(l_url d \<mapsto>
                           \<lparr>s_score = finalScore, s_timestamp = e_now pg, s_breakdown = b\<rparr>)\<rparr>,
                    results @ [\<lparr>res_url = l_url d, res_element = l_element d,
                                res_score = finalScore\<rparr>])
              else (d1, pr1, results))"

fun scoreLinks ::
  "page \<Rightarrow> cursor_data \<Rightarrow> link_data list \<Rightarrow> predictor \<times> scored list
     \<Rightarrow> link_data list \<times> predictor \<times> scored list" where
  "scoreLinks pg cursorData [] acc = ([], acc)"
| "scoreLinks pg cursorData (d # ds) acc =
     (case scoreLink pg cursorData d acc of
        (d1, acc1) \<Rightarrow>
          (case scoreLinks pg cursorData ds acc1 of
             (ds1, acc2) \<Rightarrow> (d1 # ds1, acc2)))"

text \<open>The throttle interval of a batch.\<close>

definition currentInterval :: "page \<Rightarrow> predictor \<Rightarrow> real" where
  "currentInterval pg pr =
     BATCH_INTERVAL_MS
     * (case e_connection pg of
          None \<Rightarrow> 1
        | Some (saver, effectiveType) \<Rightarrow>
            (if saver then 2 else 1)
            * (if effectiveType \<in> set [''slow-2g'', ''2g'', ''3g''] then 15 / 10 else 1))
     * (if e_hasGetBattery pg \<and> isCharging pr \<noteq> Some True then 125 / 100 else 1)"

text \<open>
  \<^verbatim>\<open>calculateScores(cursorData)\<close>: what it returns (\<^const>\<open>None\<close> for \<^verbatim>\<open>undefined\<close>), the message
  it sends to the service worker, if any, and the predictor afterwards. The sort is the
  stable sort of \<^verbatim>\<open>Array.prototype.sort\<close> by descending score.
\<close>

record batch =
  returned :: "scored list option"
  sent :: "link_msg list option"
  after :: predictor

definition calculateScores :: "page \<Rightarrow> cursor_data \<Rightarrow> predictor \<Rightarrow> batch" where
  "calculateScores pg cursorData pr =
     (if e_now pg - lastBatchTime pr < currentInterval pg pr
      then \<lparr>returned = None, sent = None, after = pr\<rparr>
      else
        let pr0 = pr\<lparr>lastBatchTime := e_now pg\<rparr>
        in if (case e_scrollSpeed pg of None \<Rightarrow> False | Some v \<Rightarrow> v > 100)
           then \<lparr>returned = None, sent = None, after = pr0\<rparr>
           else
             (case scoreLinks pg cursorData (links pr0) (pr0, []) of
                (ds, pr1, results) \<Rightarrow>
                  let ranked = sort_key (\<lambda>r. - res_score r) results
                  in \<lparr>returned = Some ranked,
                      sent = (if length ranked > 0
                              then Some (map (\<lambda>l. \<lparr>link_url = res_url l, link_score = res_score l\<rparr>)
                                           (take 5 ranked))
                              else None),
                      after = pr1\<lparr>links := ds\<rparr>\<rparr>))"

text \<open>
  The events that reach the predictor. Besides a batch and a timeout callback, the
  observers and message callbacks rewrite the catalogue, the history cache and the
  charging flag; what they write is taken as given.
\<close>

datatype predictor_event =
    Batch page cursor_data
  | TimeoutFires nat
  | CatalogueChange "link_data list"
  | HistoryResponse string real
  | ChargingChange bool

fun on_event :: "predictor_event \<Rightarrow> predictor \<Rightarrow> predictor" where
  "on_event (Batch pg cursorData) pr = after (calculateScores pg cursorData pr)"
| "on_event (TimeoutFires handle) pr = timeoutFires handle pr"
| "on_event (CatalogueChange ds) pr = pr\<lparr>links := ds\<rparr>"
| "on_event (HistoryResponse url v) pr = pr\<lparr>historyCache := (historyCache pr)(url \<mapsto> v)\<rparr>"
| "on_event (ChargingChange c) pr = pr\<lparr>isCharging := Some c\<rparr>"

fun run_events :: "predictor_event list \<Rightarrow> predictor \<Rightarrow> predictor" where
  "run_events [] pr = pr"
| "run_events (ev # evs) pr = run_events evs (on_event ev pr)"

text \<open>The number of pending grace timeouts of a URL.\<close>

definition timersFor :: "predictor \<Rightarrow> string \<Rightarrow> nat" where
  "timersFor pr url = length (filter (\<lambda>(k, u). u = url) (pendingTimeouts pr))"

text \<open>
  Invariants of the predictor. Every stored score lies in \<open>[0, 100]\<close>. The timeout queue
  holds each handle and each URL at most once, every pending handle is older than the next
  one to be handed out, and a URL has a \<^verbatim>\<open>graceTimers\<close> entry exactly when one of its timeouts
  is pending.
\<close>

definition scores_in_range :: "predictor \<Rightarrow> bool" where
  "scores_in_range pr = (\<forall>url r. scores pr url = Some r \<longrightarrow> 0 \<le> s_score r \<and> s_score r \<le> 100)"

definition timers_ok :: "predictor \<Rightarrow> bool" where
  "timers_ok pr =
     (distinct (map fst (pendingTimeouts pr))
      \<and> distinct (map snd (pendingTimeouts pr))
      \<and> (\<forall>k \<in> set (map fst (pendingTimeouts pr)). k < nextHandle pr)
      \<and> (\<forall>url. graceTimers pr url \<noteq> None \<longleftrightarrow> url \<in> set (map snd (pendingTimeouts pr))))"

text \<open>Every result has a score in \<open>(30, 100]\<close>.\<close>

definition results_in_range :: "scored list \<Rightarrow> bool" where
  "results_in_range rs = (\<forall>r \<in> set rs. 30 < res_score r \<and> res_score r \<le> 100)"

text \<open>
  Between two predictor states, each entry of the score table is either the same or was
  written at the clock reading of the page with a score above 30.
\<close>

definition only_high_written :: "page \<Rightarrow> predictor \<Rightarrow> predictor \<Rightarrow> bool" where
  "only_high_written pg pr pr' =
     (\<forall>url. scores pr' url = scores pr url
            \<or> (\<exists>r. scores pr' url = Some r \<and> 30 < s_score r \<and> s_timestamp r = e_now pg))"

subsection \<open>Concrete inputs\<close>

text \<open>A host with data-saver off whose script injections succeed, at clock reading \<open>t\<close>.\<close>

definition ex_host :: "int \<Rightarrow> host" where
  "ex_host t = \<lparr>now = t, connSaveData = False, scriptOk = True\<rparr>"

text \<open>Ten accepted speculation rules for ten URLs.\<close>

definition ex_ten :: "prefetcher_op list" where
  "ex_ten =
     [CallPrefetch (ex_host 1) ''http://a/1'', CallPrefetch (ex_host 2) ''http://a/2'',
      CallPrefetch (ex_host 3) ''http://a/3'', CallPrerender (ex_host 4) ''http://a/4'',
      CallPrefetch (ex_host 5) ''http://a/5'', CallPrefetch (ex_host 6) ''http://a/6'',
      CallPrefetch (ex_host 7) ''http://a/7'', CallPrefetch (ex_host 8) ''http://a/8'',
      CallPrefetch (ex_host 9) ''http://a/9'', CallPrefetch (ex_host 10) ''http://a/10'']"

text \<open>A prefetcher that has prefetched one URL with a trailing slash at clock reading 0.\<close>

definition ex_tracked :: prefetcher where
  "ex_tracked = prefetch parseURL (ex_host 0) ''https://a.com/x/'' new_prefetcher"

text \<open>
  A cursor at the origin moving right at 10 px/s, and a cursor resting at the origin.
\<close>

definition ex_tracker :: tracker where
  "ex_tracker = \<lparr>position = \<lparr>px = 0, py = 0\<rparr>, velocity = \<lparr>vx = 10, vy = 0\<rparr>,
                 lastVelocity = \<lparr>vx = 0, vy = 0\<rparr>\<rparr>"

definition ex_still :: tracker where
  "ex_still = \<lparr>position = \<lparr>px = 0, py = 0\<rparr>, velocity = \<lparr>vx = 0, vy = 0\<rparr>,
               lastVelocity = \<lparr>vx = 0, vy = 0\<rparr>\<rparr>"

text \<open>A cursor at the origin moving with velocity (1, 5).\<close>

definition ex_diag :: tracker where
  "ex_diag = \<lparr>position = \<lparr>px = 0, py = 0\<rparr>, velocity = \<lparr>vx = 1, vy = 5\<rparr>,
              lastVelocity = \<lparr>vx = 0, vy = 0\<rparr>\<rparr>"

text \<open>
  Two overlapping \<^verbatim>\<open>prefetch\<close> calls: call 1 begins, call 2 begins while call 1 awaits
  its removal script, then the removal script of call 1, the injection of call 2 and the
  injection of call 1 settle.
\<close>

definition ex_overlap :: "worker_event list" where
  "ex_overlap =
     [Begin 1 Prefetch (ex_host 11) ''http://a/11'',
      Begin 2 Prefetch (ex_host 11) ''http://a/12'',
      Settle 1 (ex_host 12), Settle 2 (ex_host 13), Settle 1 (ex_host 14)]"

text \<open>
  A text link of 80 by 16 px centred at (600, 300), inside the main content of an
  800 by 600 viewport; its catalogue entry carries the score \<open>s\<close>. A cursor resting at
  \<open>(x, 300)\<close>, the page at clock reading \<open>t\<close> with that cursor, and the batch this page
  and cursor trigger.
\<close>

definition ex_link :: "real \<Rightarrow> link_data" where
  "ex_link s = \<lparr>l_element = 1, l_url = ''https://a.com/x'',
               l_rect = \<lparr>r_left = 560, r_top = 292, r_width = 80, r_height = 16\<rparr>,
               l_isVisible = True, l_score = s\<rparr>"

definition ex_rest :: "real \<Rightarrow> tracker" where
  "ex_rest x = \<lparr>position = \<lparr>px = x, py = 300\<rparr>, velocity = \<lparr>vx = 0, vy = 0\<rparr>,
                lastVelocity = \<lparr>vx = 0, vy = 0\<rparr>\<rparr>"

definition ex_page :: "real \<Rightarrow> real \<Rightarrow> page" where
  "ex_page t x =
     \<lparr>e_now = t, e_connection = None, e_hasGetBattery = False, e_tracker = ex_rest x,
      e_scrollSpeed = None, e_innerWidth = 800, e_innerHeight = 600,
      e_closestMain = (\<lambda>el. True), e_closestNav = (\<lambda>el. False),
      e_boundingTop = (\<lambda>el. 292)\<rparr>"

definition ex_batch :: "real \<Rightarrow> real \<Rightarrow> predictor_event" where
  "ex_batch t x = Batch (ex_page t x) (getData (ex_rest x))"

text \<open>The factor breakdowns with the cursor on the link, 16 px and 496 px beside it.\<close>

definition b_on :: breakdown where
  "b_on = \<lparr>fittsScore = 100, intentionScore = 100, proximityScore = 100, contextScore = 80, historyScore = 40\<rparr>"
definition b_near :: breakdown where
  "b_near = \<lparr>fittsScore = 85, intentionScore = 0, proximityScore = 492 / 5, contextScore = 80, historyScore = 40\<rparr>"
definition b_far :: breakdown where
  "b_far = \<lparr>fittsScore = 25, intentionScore = 0, proximityScore = 252 / 5, contextScore = 80, historyScore = 40\<rparr>"

text \<open>
  The predictor after a first batch on the link at clock 1000 (\<open>ex_st1\<close>), then after a
  second batch 16 px beside it at clock 2000 (\<open>ex_st2\<close>), or instead after a second batch
  496 px away (\<open>ex_st_far\<close>).
\<close>

definition ex_st1 :: predictor where
  "ex_st1 = \<lparr>links = [ex_link 89],
      scores = [''https://a.com/x'' \<mapsto> \<lparr>s_score = 89, s_timestamp = 1000, s_breakdown = b_on\<rparr>],
      graceTimers = Map.empty, historyCache = Map.empty, lastBatchTime = 1000, isCharging = None,
      pendingTimeouts = [], nextHandle = 0\<rparr>"

definition ex_st2 :: predictor where
  "ex_st2 = \<lparr>links = [ex_link 89],
      scores = [''https://a.com/x'' \<mapsto> \<lparr>s_score = 89, s_timestamp = 2000, s_breakdown = b_near\<rparr>],
      graceTimers = [''https://a.com/x'' \<mapsto> 0], historyCache = Map.empty, lastBatchTime = 2000,
      isCharging = None, pendingTimeouts = [(0, ''https://a.com/x'')], nextHandle = 1\<rparr>"

definition ex_st_far :: predictor where
  "ex_st_far = \<lparr>links = [ex_link (1453 / 50)],
      scores = [''https://a.com/x'' \<mapsto> \<lparr>s_score = 89, s_timestamp = 1000, s_breakdown = b_on\<rparr>],
      graceTimers = Map.empty, historyCache = Map.empty, lastBatchTime = 2000, isCharging = None,
      pendingTimeouts = [], nextHandle = 0\<rparr>"

definition ex_events_1 :: "predictor_event list" where
  "ex_events_1 = [CatalogueChange [ex_link 0], ex_batch 1000 600]"

definition ex_events_2 :: "predictor_event list" where
  "ex_events_2 = [CatalogueChange [ex_link 0], ex_batch 1000 600, ex_batch 2000 616]"

definition ex_events_far :: "predictor_event list" where
  "ex_events_far = [CatalogueChange [ex_link 0], ex_batch 1000 600, ex_batch 2000 104]"

section \<open>Properties\<close>

subsection \<open>Context manager\<close>





subsection \<open>Cursor tracker\<close>

lemma unit_dot_bounds:
  fixes ux uy wx wy :: real
  assumes u: "ux * ux + uy * uy = 1" and w: "wx * wx + wy * wy = 1"
  shows "- 1 \<le> ux * wx + uy * wy \<and> ux * wx + uy * wy \<le> 1"
proof -
  have "(ux * wx + uy * wy)\<^sup>2 + (ux * wy - uy * wx)\<^sup>2
          = (ux * ux + uy * uy) * (wx * wx + wy * wy)"
    by (simp add: power2_eq_square algebra_simps)
  then have "(ux * wx + uy * wy)\<^sup>2 + (ux * wy - uy * wx)\<^sup>2 = 1"
    using u w by simp
  moreover have "0 \<le> (ux * wy - uy * wx)\<^sup>2" by simp
  ultimately have "(ux * wx + uy * wy)\<^sup>2 \<le> 1" by linarith
  then have "\<bar>ux * wx + uy * wy\<bar> \<le> 1"
    by (simp add: abs_square_le_1)
  then show ?thesis by linarith
qed

lemma unit_of_norm:
  fixes a b :: real
  assumes "sqrt (a * a + b * b) \<noteq> 0"
  shows "(a / sqrt (a * a + b * b)) * (a / sqrt (a * a + b * b))
         + (b / sqrt (a * a + b * b)) * (b / sqrt (a * a + b * b)) = 1"
proof -
  define n where "n = sqrt (a * a + b * b)"
  have nn: "n * n = a * a + b * b"
    unfolding n_def by (simp add: add_nonneg_nonneg)
  have n0: "n \<noteq> 0"
    using assms by (simp add: n_def)
  have "(a / n) * (a / n) + (b / n) * (b / n) = (a * a + b * b) / (n * n)"
    by (simp add: add_divide_distrib)
  also have "\<dots> = (n * n) / (n * n)"
    by (simp only: nn)
  also have "\<dots> = 1"
    using n0 by simp
  finally show ?thesis
    unfolding n_def .
qed

lemma sqrt_sq_zero_iff:
  fixes a b :: real
  shows "sqrt (a * a + b * b) = 0 \<longleftrightarrow> a = 0 \<and> b = 0"
  by (simp add: add_nonneg_eq_0_iff)

text \<open>
  In exact arithmetic: 1 on the target, 0 off the target at speed zero, and otherwise the
  dot product of the two unit vectors, which lies between \<open>-1\<close> and 1.
\<close>

lemma exact_score_cases:
  fixes t :: tracker and targetX targetY :: real
  defines "dx \<equiv> targetX - px (position t)"
      and "dy \<equiv> targetY - py (position t)"
      and "speed \<equiv> sqrt ((vx (velocity t))\<^sup>2 + (vy (velocity t))\<^sup>2)"
  defines "dst \<equiv> sqrt (dx * dx + dy * dy)"
  shows "(targetX = px (position t) \<and> targetY = py (position t)
            \<longrightarrow> getIntentionScore t targetX targetY = 1)
       \<and> (\<not> (targetX = px (position t) \<and> targetY = py (position t)) \<and> speed = 0
            \<longrightarrow> getIntentionScore t targetX targetY = 0)
       \<and> (\<not> (targetX = px (position t) \<and> targetY = py (position t)) \<and> speed \<noteq> 0
            \<longrightarrow> getIntentionScore t targetX targetY
                  = (dx / dst) * (vx (velocity t) / speed)
                    + (dy / dst) * (vy (velocity t) / speed)
                \<and> - 1 \<le> getIntentionScore t targetX targetY
                \<and> getIntentionScore t targetX targetY \<le> 1)"
proof (intro conjI impI)
  assume "targetX = px (position t) \<and> targetY = py (position t)"
  then show "getIntentionScore t targetX targetY = 1"
    by (simp add: getIntentionScore_def)
next
  assume a: "\<not> (targetX = px (position t) \<and> targetY = py (position t)) \<and> speed = 0"
  then have "dst \<noteq> 0"
    unfolding dst_def dx_def dy_def sqrt_sq_zero_iff by auto
  then show "getIntentionScore t targetX targetY = 0"
    using a unfolding dst_def dx_def dy_def speed_def
    by (simp add: getIntentionScore_def Let_def)
next
  assume a: "\<not> (targetX = px (position t) \<and> targetY = py (position t)) \<and> speed \<noteq> 0"
  then have d: "dst \<noteq> 0"
    unfolding dst_def dx_def dy_def sqrt_sq_zero_iff by auto
  show e: "getIntentionScore t targetX targetY
          = (dx / dst) * (vx (velocity t) / speed) + (dy / dst) * (vy (velocity t) / speed)"
    using a d unfolding dst_def dx_def dy_def speed_def
    by (simp add: getIntentionScore_def Let_def mult.commute)
  have s: "speed = sqrt (vx (velocity t) * vx (velocity t) + vy (velocity t) * vy (velocity t))"
    by (simp add: speed_def power2_eq_square)
  have u1: "(dx / dst) * (dx / dst) + (dy / dst) * (dy / dst) = 1"
    using d unfolding dst_def by (rule unit_of_norm)
  have u2: "(vx (velocity t) / speed) * (vx (velocity t) / speed)
            + (vy (velocity t) / speed) * (vy (velocity t) / speed) = 1"
    using a unfolding s by (intro unit_of_norm) simp
  from unit_dot_bounds [OF u1 u2] e
  show "- 1 \<le> getIntentionScore t targetX targetY"
    and "getIntentionScore t targetX targetY \<le> 1"
    by simp_all
qed

text \<open>Rounding to binary64: the nearest value of 53 significant bits, and its uniqueness.\<close>

lemma nearest_even_close: "\<bar>of_int (nearest_even r) - r\<bar> \<le> 1 / 2"
proof -
  have "of_int \<lfloor>r\<rfloor> \<le> r" "r < of_int \<lfloor>r\<rfloor> + 1" by linarith+
  then show ?thesis
    by (auto simp: nearest_even_def Let_def)
qed

lemma nearest_even_unique:
  assumes "\<bar>r - of_int n\<bar> < 1 / 2"
  shows "nearest_even r = n"
proof -
  have c: "\<bar>of_int (nearest_even r) - r\<bar> \<le> 1 / 2" by (rule nearest_even_close)
  have "\<bar>(of_int (nearest_even r) :: real) - of_int n\<bar> < 1"
    using assms c by linarith
  then have "\<bar>of_int (nearest_even r - n) :: real\<bar> < 1" by simp
  then have "\<bar>nearest_even r - n\<bar> < 1"
    by (metis of_int_abs of_int_less_1_iff)
  then show ?thesis by linarith
qed

lemma ulp_exponent_eqI:
  assumes "2 powr (of_int e + 52) \<le> \<bar>x\<bar>" "\<bar>x\<bar> < 2 powr (of_int e + 53)"
  shows "ulp_exponent x = e"
proof -
  have pos: "0 < \<bar>x\<bar>"
    using assms(1) by (smt (verit) powr_gt_zero)
  have "of_int e + 52 \<le> log 2 \<bar>x\<bar>"
    using assms(1) pos by (simp add: le_log_iff)
  moreover have "log 2 \<bar>x\<bar> < of_int e + 53"
    using assms(2) pos by (simp add: log_less_iff)
  ultimately have "\<lfloor>log 2 \<bar>x\<bar>\<rfloor> = e + 52"
    by (intro floor_unique) simp_all
  then show ?thesis by (simp add: ulp_exponent_def)
qed

lemma fl64_eqI:
  assumes "2 powr (of_int e + 52) \<le> \<bar>x\<bar>" "\<bar>x\<bar> < 2 powr (of_int e + 53)"
    and "\<bar>x / 2 powr of_int e - of_int n\<bar> < 1 / 2"
  shows "fl64 x = of_int n * 2 powr of_int e"
proof -
  have pos: "0 < \<bar>x\<bar>"
    using assms(1) by (smt (verit) powr_gt_zero)
  have e: "ulp_exponent x = e"
    using assms(1,2) by (rule ulp_exponent_eqI)
  have "nearest_even (x / 2 powr of_int e) = n"
    using assms(3) by (rule nearest_even_unique)
  then show ?thesis
    using pos by (simp add: fl64_def e)
qed

lemma fl64_near:
  fixes k :: nat
  assumes "2 ^ 52 \<le> \<bar>x\<bar> * 2 ^ k" "\<bar>x\<bar> * 2 ^ k < 2 ^ 53"
    and "\<bar>x * 2 ^ k - of_int n\<bar> < 1 / 2"
  shows "fl64 x = of_int n / 2 ^ k"
proof -
  have p: "(2::real) powr of_int (- int k) = 1 / 2 ^ k"
    by (simp add: powr_minus powr_realpow field_simps)
  have a: "(2::real) powr (of_int (- int k) + 52) = 2 ^ 52 / 2 ^ k"
  proof -
    have "(2::real) powr (of_int (- int k) + 52) = 2 powr of_int (- int k) * 2 powr 52"
      by (rule powr_add)
    also have "\<dots> = (1 / 2 ^ k) * 2 ^ 52"
      unfolding p by simp
    finally show ?thesis by simp
  qed
  have b: "(2::real) powr (of_int (- int k) + 53) = 2 ^ 53 / 2 ^ k"
  proof -
    have "(2::real) powr (of_int (- int k) + 53) = 2 powr of_int (- int k) * 2 powr 53"
      by (rule powr_add)
    also have "\<dots> = (1 / 2 ^ k) * 2 ^ 53"
      unfolding p by simp
    finally show ?thesis by simp
  qed
  have 1: "2 powr (of_int (- int k) + 52) \<le> \<bar>x\<bar>"
    unfolding a using assms(1) by (simp add: field_simps)
  have 2: "\<bar>x\<bar> < 2 powr (of_int (- int k) + 53)"
    unfolding b using assms(2) by (simp add: field_simps)
  have 3: "\<bar>x / 2 powr of_int (- int k) - of_int n\<bar> < 1 / 2"
    unfolding p using assms(3) by simp
  show ?thesis
    using fl64_eqI [OF 1 2 3] p by simp
qed

lemma fl64_zero_iff: "fl64 x = 0 \<longleftrightarrow> x = 0"
proof
  assume z: "fl64 x = 0"
  show "x = 0"
  proof (rule ccontr)
    assume nz: "x \<noteq> 0"
    define E where "E = \<lfloor>log 2 \<bar>x\<bar>\<rfloor>"
    define r where "r = x / 2 powr of_int (ulp_exponent x)"
    have "of_int E \<le> log 2 \<bar>x\<bar>" by (simp add: E_def)
    then have "2 powr of_int E \<le> \<bar>x\<bar>"
      using nz by (simp add: le_log_iff)
    then have "2 powr of_int E / 2 powr of_int (ulp_exponent x) \<le> \<bar>x\<bar> / 2 powr of_int (ulp_exponent x)"
      by (simp add: divide_right_mono)
    moreover have "(2::real) powr of_int E / 2 powr of_int (ulp_exponent x) = 2 powr 52"
      by (simp add: ulp_exponent_def E_def powr_diff [symmetric])
    ultimately have "2 powr 52 \<le> \<bar>r\<bar>"
      by (simp add: r_def)
    moreover have "(1::real) \<le> 2 powr 52" by simp
    ultimately have big: "1 \<le> \<bar>r\<bar>" by linarith
    have "\<bar>of_int (nearest_even r) - r\<bar> \<le> 1 / 2" by (rule nearest_even_close)
    then have "nearest_even r \<noteq> 0" using big by auto
    then show False
      using z nz by (simp add: fl64_def r_def)
  qed
next
  assume "x = 0" then show "fl64 x = 0" by (simp add: fl64_def)
qed

lemma fl64_nonneg: "0 \<le> x \<Longrightarrow> 0 \<le> fl64 x"
proof (cases "x = 0")
  case True then show ?thesis by (simp add: fl64_def)
next
  case False
  assume "0 \<le> x"
  then have "0 \<le> x / 2 powr of_int (ulp_exponent x)" by simp
  moreover have "\<bar>of_int (nearest_even (x / 2 powr of_int (ulp_exponent x))) - x / 2 powr of_int (ulp_exponent x)\<bar> \<le> 1 / 2"
    by (rule nearest_even_close)
  ultimately have "- 1 / 2 \<le> (of_int (nearest_even (x / 2 powr of_int (ulp_exponent x))) :: real)"
    by linarith
  then have "0 \<le> nearest_even (x / 2 powr of_int (ulp_exponent x))"
    by linarith
  then show ?thesis
    using False by (simp add: fl64_def)
qed

text \<open>
  The tracker's computation at three inputs. With velocity \<open>(1, 5)\<close> and the target at
  \<open>(1, 5)\<close> from the cursor, both unit vectors round to the same pair of doubles, whose dot
  product rounds to \<open>1 + 2\<^sup>-\<^sup>5\<^sup>2\<close>.
\<close>

lemma exact_arithmetic: "getIntentionScore = getIntentionScoreWith (\<lambda>x. x)"
  by (intro ext) (simp only: getIntentionScore_def getIntentionScoreWith_def power2_eq_square)

lemma fl64_small_ints:
  "fl64 1 = 1" "fl64 5 = 5" "fl64 10 = 10" "fl64 25 = 25" "fl64 26 = 26" "fl64 100 = 100"
  "fl64 10000 = 10000"
  using fl64_near [of 1 52 "2 ^ 52"] fl64_near [of 5 50 "5 * 2 ^ 50"]
    fl64_near [of 10 49 "10 * 2 ^ 49"] fl64_near [of 25 48 "25 * 2 ^ 48"]
    fl64_near [of 26 48 "26 * 2 ^ 48"] fl64_near [of 100 46 "100 * 2 ^ 46"]
    fl64_near [of 10000 39 "10000 * 2 ^ 39"]
  by simp_all

lemma abs_diff_less_half:
  fixes y c :: real
  shows "c - 1 / 2 < y \<Longrightarrow> y < c + 1 / 2 \<Longrightarrow> \<bar>y - c\<bar> < 1 / 2"
  by linarith

lemma sqrt_26_bounds:
  "5740985595342837 / 2 ^ 50 + 1 / 2 ^ 51 < sqrt 26"
  "sqrt 26 < 5740985595342838 / 2 ^ 50 + 1 / 2 ^ 51"
  by (rule real_less_rsqrt, simp add: power2_eq_square)
     (rule real_less_lsqrt, simp_all add: power2_eq_square)

lemma fl64_sqrt_26: "fl64 (sqrt 26) = 5740985595342838 / 2 ^ 50"
proof -
  have lo: "5740985595342838 - 1 / 2 < sqrt 26 * 2 ^ 50"
    using sqrt_26_bounds(1) by (simp add: field_simps)
  have hi: "sqrt 26 * 2 ^ 50 < 5740985595342838 + 1 / 2"
    using sqrt_26_bounds(2) by (simp add: field_simps)
  have pos: "0 \<le> sqrt 26" by simp
  have "fl64 (sqrt 26) = of_int 5740985595342838 / 2 ^ 50"
  proof (rule fl64_near)
    show "2 ^ 52 \<le> \<bar>sqrt 26\<bar> * 2 ^ 50" using lo by simp
    show "\<bar>sqrt 26\<bar> * 2 ^ 50 < 2 ^ 53" using hi by simp
    show "\<bar>sqrt 26 * 2 ^ 50 - of_int 5740985595342838\<bar> < 1 / 2"
      by (rule abs_diff_less_half) (use lo hi in simp_all)
  qed
  then show ?thesis by simp
qed

lemma fl64_diag_quotients:
  "fl64 (562949953421312 / 2870492797671419) = (7065828425037340 / 2 ^ 55)"
  "fl64 (2814749767106560 / 2870492797671419) = (8832285531296675 / 2 ^ 53)"
  using fl64_near [of "562949953421312 / 2870492797671419" 55 7065828425037340]
    fl64_near [of "2814749767106560 / 2870492797671419" 53 8832285531296675]
  by simp_all

lemma fl64_diag_products:
  "fl64 ((7065828425037340 / 2 ^ 55) * (7065828425037340 / 2 ^ 55)) = (5542891849071380 / 2 ^ 57)"
  "fl64 ((8832285531296675 / 2 ^ 53) * (8832285531296675 / 2 ^ 53)) = (8660768514174032 / 2 ^ 53)"
  using fl64_near [of "(7065828425037340 / 2 ^ 55) * (7065828425037340 / 2 ^ 55)" 57 5542891849071380]
    fl64_near [of "(8832285531296675 / 2 ^ 53) * (8832285531296675 / 2 ^ 53)" 53 8660768514174032]
  by simp_all

lemma fl64_diag_sum:
  "fl64 ((5542891849071380 / 2 ^ 57) + (8660768514174032 / 2 ^ 53)) = (4503599627370497 / 2 ^ 52)"
  using fl64_near [of "(5542891849071380 / 2 ^ 57) + (8660768514174032 / 2 ^ 53)" 52 4503599627370497]
  by simp

lemma diag_score: "getIntentionScore64 ex_diag 1 5 = 1 + 1 / 2 ^ 52"
proof -
  have "getIntentionScore64 ex_diag 1 5
      = fl64 (fl64 (fl64 (562949953421312 / 2870492797671419)
                    * fl64 (562949953421312 / 2870492797671419))
              + fl64 (fl64 (2814749767106560 / 2870492797671419)
                      * fl64 (2814749767106560 / 2870492797671419)))"
    by (simp add: getIntentionScore64_def getIntentionScoreWith_def Let_def ex_diag_def
        fl64_small_ints fl64_sqrt_26)
  also have "\<dots> = (4503599627370497 / 2 ^ 52)"
    by (simp only: fl64_diag_quotients fl64_diag_products fl64_diag_sum)
  also have "\<dots> = 1 + 1 / 2 ^ 52"
    by simp
  finally show ?thesis .
qed

lemma fl64_0: "fl64 0 = 0"
  by (simp add: fl64_def)

lemma sqrt_squares: "sqrt 100 = 10" "sqrt 10000 = 100"
  using real_sqrt_abs [of 10] real_sqrt_abs [of 100] by simp_all

lemma straight_score: "getIntentionScore64 ex_tracker 100 0 = 1"
  by (simp add: getIntentionScore64_def getIntentionScoreWith_def Let_def ex_tracker_def
      fl64_small_ints fl64_0 sqrt_squares)

lemma still_score: "getIntentionScore64 ex_still 0 0 = 1"
  by (simp add: getIntentionScore64_def getIntentionScoreWith_def Let_def ex_still_def
      fl64_0)

text \<open>The two tests of the tracker, on rounded values.\<close>

lemma norm64_zero_iff:
  "fl64 (sqrt (fl64 (fl64 (a * a) + fl64 (b * b)))) = 0 \<longleftrightarrow> a = 0 \<and> b = 0"
proof -
  have na: "0 \<le> fl64 (a * a)" and nb: "0 \<le> fl64 (b * b)"
    by (simp_all add: fl64_nonneg)
  have "fl64 (sqrt (fl64 (fl64 (a * a) + fl64 (b * b)))) = 0
          \<longleftrightarrow> fl64 (a * a) + fl64 (b * b) = 0"
    by (simp add: fl64_zero_iff)
  also have "\<dots> \<longleftrightarrow> fl64 (a * a) = 0 \<and> fl64 (b * b) = 0"
    using na nb by (simp add: add_nonneg_eq_0_iff)
  also have "\<dots> \<longleftrightarrow> a = 0 \<and> b = 0"
    by (simp add: fl64_zero_iff)
  finally show ?thesis .
qed

lemma distance64_zero_iff:
  "fl64 (sqrt (fl64 (fl64 (fl64 (tx - x) * fl64 (tx - x)) + fl64 (fl64 (ty - y) * fl64 (ty - y)))))
     = 0 \<longleftrightarrow> tx = x \<and> ty = y"
proof -
  have "fl64 (sqrt (fl64 (fl64 (fl64 (tx - x) * fl64 (tx - x))
            + fl64 (fl64 (ty - y) * fl64 (ty - y))))) = 0
          \<longleftrightarrow> fl64 (tx - x) = 0 \<and> fl64 (ty - y) = 0"
    by (rule norm64_zero_iff)
  also have "\<dots> \<longleftrightarrow> tx = x \<and> ty = y"
    by (simp add: fl64_zero_iff)
  finally show ?thesis .
qed

lemma score64_on_target:
  assumes "targetX = px (position t) \<and> targetY = py (position t)"
  shows "getIntentionScore64 t targetX targetY = 1"
proof -
  have "fl64 (sqrt (fl64 (fl64 (fl64 (targetX - px (position t)) * fl64 (targetX - px (position t)))
          + fl64 (fl64 (targetY - py (position t)) * fl64 (targetY - py (position t)))))) = 0"
    using assms by (simp only: distance64_zero_iff)
  then show ?thesis
    unfolding getIntentionScore64_def getIntentionScoreWith_def Let_def
    by (simp only: if_True simp_thms)
qed

lemma score64_at_rest:
  assumes "\<not> (targetX = px (position t) \<and> targetY = py (position t))"
    and "vx (velocity t) = 0 \<and> vy (velocity t) = 0"
  shows "getIntentionScore64 t targetX targetY = 0"
proof -
  have D: "(fl64 (sqrt (fl64 (fl64 (fl64 (targetX - px (position t)) * fl64 (targetX - px (position t)))
          + fl64 (fl64 (targetY - py (position t)) * fl64 (targetY - py (position t)))))) = 0)
          = False"
    using assms(1) by (simp only: distance64_zero_iff)
  have S: "fl64 (sqrt (fl64 (fl64 (vx (velocity t) * vx (velocity t))
          + fl64 (vy (velocity t) * vy (velocity t))))) = 0"
    using assms(2) by (simp only: norm64_zero_iff)
  show ?thesis
    unfolding getIntentionScore64_def getIntentionScoreWith_def Let_def
    by (simp only: D S if_False if_True simp_thms)
qed

lemma score64_moving:
  assumes "\<not> (targetX = px (position t) \<and> targetY = py (position t))"
    and "\<not> (vx (velocity t) = 0 \<and> vy (velocity t) = 0)"
  shows "getIntentionScore64 t targetX targetY
           = dot64 (unit64 (fl64 (targetX - px (position t)), fl64 (targetY - py (position t))))
                   (unit64 (vx (velocity t), vy (velocity t)))"
proof -
  have D: "(fl64 (sqrt (fl64 (fl64 (fl64 (targetX - px (position t)) * fl64 (targetX - px (position t)))
          + fl64 (fl64 (targetY - py (position t)) * fl64 (targetY - py (position t)))))) = 0)
          = False"
    using assms(1) by (simp only: distance64_zero_iff)
  have S: "(fl64 (sqrt (fl64 (fl64 (vx (velocity t) * vx (velocity t))
          + fl64 (vy (velocity t) * vy (velocity t))))) = 0) = False"
    using assms(2) by (simp only: norm64_zero_iff)
  show ?thesis
    unfolding getIntentionScore64_def getIntentionScoreWith_def Let_def dot64_def unit64_def
    by (simp only: D S if_False fst_conv snd_conv simp_thms)
qed

lemma ex_positions:
  "px (position ex_tracker) = 0" "py (position ex_tracker) = 0"
  "vx (velocity ex_tracker) = 10" "vy (velocity ex_tracker) = 0"
  "px (position ex_still) = 0" "py (position ex_still) = 0"
  "vx (velocity ex_still) = 0" "vy (velocity ex_still) = 0"
  "px (position ex_diag) = 0" "py (position ex_diag) = 0"
  "vx (velocity ex_diag) = 1" "vy (velocity ex_diag) = 5"
  by (simp_all add: ex_tracker_def ex_still_def ex_diag_def)

text \<open>
  C8 (amended). \<^verbatim>\<open>getIntentionScore\<close> returns 1 when the target is the cursor position. For
  another target, with coordinate differences and velocity components in the range where
  binary64 neither overflows nor underflows, it returns 0 when both velocity components are
  zero, and otherwise the dot product of the unit vector toward the target and the unit
  velocity vector as binary64 computes it, every operation rounded. Computed exactly, that
  dot product lies between \<open>-1\<close> and 1; no such bound is stated for the rounded result.
\<close>

theorem C8_intention_score:
  fixes t :: tracker and targetX targetY :: real
  defines "dx \<equiv> targetX - px (position t)"
      and "dy \<equiv> targetY - py (position t)"
      and "speed \<equiv> sqrt ((vx (velocity t))\<^sup>2 + (vy (velocity t))\<^sup>2)"
  defines "dst \<equiv> sqrt (dx * dx + dy * dy)"
  shows "(targetX = px (position t) \<and> targetY = py (position t)
            \<longrightarrow> getIntentionScore64 t targetX targetY = 1)
       \<and> (\<not> (targetX = px (position t) \<and> targetY = py (position t))
            \<and> in_range64 dx \<and> in_range64 dy
            \<and> vx (velocity t) = 0 \<and> vy (velocity t) = 0
            \<longrightarrow> getIntentionScore64 t targetX targetY = 0)
       \<and> (\<not> (targetX = px (position t) \<and> targetY = py (position t))
            \<and> \<not> (vx (velocity t) = 0 \<and> vy (velocity t) = 0)
            \<and> in_range64 dx \<and> in_range64 dy
            \<and> in_range64 (vx (velocity t)) \<and> in_range64 (vy (velocity t))
            \<longrightarrow> getIntentionScore64 t targetX targetY
                  = dot64 (unit64 (fl64 dx, fl64 dy))
                          (unit64 (vx (velocity t), vy (velocity t))))
       \<and> (\<not> (targetX = px (position t) \<and> targetY = py (position t))
            \<and> \<not> (vx (velocity t) = 0 \<and> vy (velocity t) = 0)
            \<longrightarrow> getIntentionScoreWith (\<lambda>x. x) t targetX targetY
                  = (dx / dst) * (vx (velocity t) / speed)
                    + (dy / dst) * (vy (velocity t) / speed)
                \<and> - 1 \<le> getIntentionScoreWith (\<lambda>x. x) t targetX targetY
                \<and> getIntentionScoreWith (\<lambda>x. x) t targetX targetY \<le> 1)"
proof (intro conjI impI)
  assume "targetX = px (position t) \<and> targetY = py (position t)"
  then show "getIntentionScore64 t targetX targetY = 1"
    by (rule score64_on_target)
next
  assume "\<not> (targetX = px (position t) \<and> targetY = py (position t))
            \<and> in_range64 dx \<and> in_range64 dy
            \<and> vx (velocity t) = 0 \<and> vy (velocity t) = 0"
  then show "getIntentionScore64 t targetX targetY = 0"
    using score64_at_rest [of targetX t targetY] by blast
next
  assume "\<not> (targetX = px (position t) \<and> targetY = py (position t))
            \<and> \<not> (vx (velocity t) = 0 \<and> vy (velocity t) = 0)
            \<and> in_range64 dx \<and> in_range64 dy
            \<and> in_range64 (vx (velocity t)) \<and> in_range64 (vy (velocity t))"
  then show "getIntentionScore64 t targetX targetY
                  = dot64 (unit64 (fl64 dx, fl64 dy))
                          (unit64 (vx (velocity t), vy (velocity t)))"
    unfolding dx_def dy_def
    using score64_moving [of targetX t targetY] by blast
next
  assume a: "\<not> (targetX = px (position t) \<and> targetY = py (position t))
            \<and> \<not> (vx (velocity t) = 0 \<and> vy (velocity t) = 0)"
  have "speed \<noteq> 0"
    using a unfolding speed_def power2_eq_square sqrt_sq_zero_iff by blast
  then have m: "\<not> (targetX = px (position t) \<and> targetY = py (position t))
      \<and> sqrt ((vx (velocity t))\<^sup>2 + (vy (velocity t))\<^sup>2) \<noteq> 0"
    using a by (simp add: speed_def)
  note e = exact_score_cases [of targetX t targetY, THEN conjunct2, THEN conjunct2, rule_format, OF m]
  show "getIntentionScoreWith (\<lambda>x. x) t targetX targetY
                  = (dx / dst) * (vx (velocity t) / speed)
                    + (dy / dst) * (vy (velocity t) / speed)"
    and "- 1 \<le> getIntentionScoreWith (\<lambda>x. x) t targetX targetY"
    and "getIntentionScoreWith (\<lambda>x. x) t targetX targetY \<le> 1"
    using e unfolding exact_arithmetic [symmetric] dx_def dy_def speed_def dst_def
    by simp_all
qed

theorem C8_intention_score_witness:
  "getIntentionScore64 ex_tracker 0 0 = 1
   \<and> in_range64 100 \<and> in_range64 50 \<and> in_range64 1 \<and> in_range64 5
   \<and> getIntentionScore64 ex_still 100 50 = 0
   \<and> getIntentionScore64 ex_diag 100 50
       = dot64 (unit64 (fl64 100, fl64 50)) (unit64 (1, 5))
   \<and> - 1 \<le> getIntentionScoreWith (\<lambda>x. x) ex_diag 100 50
   \<and> getIntentionScoreWith (\<lambda>x. x) ex_diag 100 50 \<le> 1"
proof -
  have r: "in_range64 100" "in_range64 50" "in_range64 1" "in_range64 5"
    by (simp_all add: in_range64_def)
  have "getIntentionScore64 ex_tracker 0 0 = 1"
    using C8_intention_score [of 0 ex_tracker 0] by (simp add: ex_positions)
  moreover have "getIntentionScore64 ex_still 100 50 = 0"
    using C8_intention_score [of 100 ex_still 50] r by (simp add: ex_positions)
  moreover have "getIntentionScore64 ex_diag 100 50
       = dot64 (unit64 (fl64 100, fl64 50)) (unit64 (1, 5))
     \<and> - 1 \<le> getIntentionScoreWith (\<lambda>x. x) ex_diag 100 50
     \<and> getIntentionScoreWith (\<lambda>x. x) ex_diag 100 50 \<le> 1"
  proof -
    have off: "\<not> ((100::real) = px (position ex_diag) \<and> (50::real) = py (position ex_diag))"
      and moving: "\<not> (vx (velocity ex_diag) = 0 \<and> vy (velocity ex_diag) = 0)"
      and range: "in_range64 (100 - px (position ex_diag))"
        "in_range64 (50 - py (position ex_diag))"
        "in_range64 (vx (velocity ex_diag))" "in_range64 (vy (velocity ex_diag))"
      using r by (simp_all add: ex_positions)
    from C8_intention_score [of 100 ex_diag 50] off moving range
    have "getIntentionScore64 ex_diag 100 50
         = dot64 (unit64 (fl64 (100 - px (position ex_diag)), fl64 (50 - py (position ex_diag))))
                 (unit64 (vx (velocity ex_diag), vy (velocity ex_diag)))
       \<and> - 1 \<le> getIntentionScoreWith (\<lambda>x. x) ex_diag 100 50
       \<and> getIntentionScoreWith (\<lambda>x. x) ex_diag 100 50 \<le> 1"
      by blast
    then show ?thesis
      by (simp only: ex_positions diff_zero)
  qed
  ultimately show ?thesis
    using r by blast
qed

text \<open>
  The claim as stated fails three times, in binary64 as in exact arithmetic. A target
  straight ahead of the motion, 100 px away from the cursor, scores 1 although it is not the
  cursor position; a resting cursor that is on the target scores 1, not 0, because the
  distance test comes first; and with velocity \<open>(1, 5)\<close> and the target at \<open>(1, 5)\<close> from the
  cursor the returned double is \<open>1 + 2\<^sup>-\<^sup>5\<^sup>2\<close>, above 1.
\<close>

theorem C8_one_off_target:
  "getIntentionScore64 ex_tracker 100 0 = 1
   \<and> px (position ex_tracker) \<noteq> 100
   \<and> vx (velocity ex_still) = 0 \<and> vy (velocity ex_still) = 0
   \<and> getIntentionScore64 ex_still 0 0 = 1
   \<and> \<not> (1 = px (position ex_diag) \<and> 5 = py (position ex_diag))
   \<and> getIntentionScore64 ex_diag 1 5 = 1 + 1 / 2 ^ 52
   \<and> 1 < getIntentionScore64 ex_diag 1 5"
  by (simp add: straight_score still_score diag_score ex_positions)

subsection \<open>Prefetcher\<close>

lemmas prefetcher_eval =
  ex_host_def new_prefetcher_def prefetch_def prerender_def preconnect_def dnsPrefetch_def
  addSpeculationRule_def track_def normalize_def parseURL_def startsWith_def endsWith_def
  Let_def

lemma length_removeOldestRule:
  "length (activeSpeculationRules (removeOldestRule pf))
     = length (activeSpeculationRules pf) - 1"
  by (simp add: removeOldestRule_def split: list.splits)

lemma maxRules_removeOldestRule: "maxRules (removeOldestRule pf) = maxRules pf"
  by (simp add: removeOldestRule_def split: list.splits)

lemma cap_ok_addSpeculationRule:
  "cap_ok pf \<Longrightarrow> cap_ok (snd (addSpeculationRule h ty url pf))"
  by (auto simp: cap_ok_def addSpeculationRule_def Let_def length_removeOldestRule
      maxRules_removeOldestRule)

lemma cap_ok_track: "cap_ok (track P h url ty pf) = cap_ok pf"
  by (simp add: cap_ok_def track_def)

lemma cap_ok_apply_op:
  assumes c: "cap_ok pf"
  shows "cap_ok (apply_op P op pf)"
proof (cases op)
  case (CallPrefetch h url)
  show ?thesis
    using cap_ok_addSpeculationRule [OF c, of h Prefetch url] c
    by (auto simp: CallPrefetch prefetch_def cap_ok_track split: prod.splits option.splits)
next
  case (CallPrerender h url)
  show ?thesis
    using cap_ok_addSpeculationRule [OF c, of h Prerender url] c
    by (auto simp: CallPrerender prerender_def cap_ok_track split: prod.splits option.splits)
next
  case (CallDnsPrefetch h url)
  then show ?thesis
    using c by (auto simp: dnsPrefetch_def cap_ok_track split: option.splits)
next
  case (CallPreconnect h url)
  then show ?thesis
    using c by (auto simp: preconnect_def cap_ok_track split: option.splits)
next
  case (CallClearOld t m)
  then show ?thesis
    using c by (simp add: clearOldPrefetches_def cap_ok_def)
qed

lemma cap_ok_run_ops: "cap_ok pf \<Longrightarrow> cap_ok (run_ops P ops pf)"
  by (induction ops arbitrary: pf) (simp_all add: cap_ok_apply_op)

lemma cap_ok_new_prefetcher: "cap_ok new_prefetcher"
  by (simp add: cap_ok_def new_prefetcher_def)

lemma addSpeculationRule_at_capacity:
  assumes "maxRules pf = 10" "length (activeSpeculationRules pf) = 10" "scriptOk h"
  shows "addSpeculationRule h ty url pf =
    (None, pf\<lparr>activeSpeculationRules :=
               tl (activeSpeculationRules pf) @ [\<lparr>rtype = ty, rurl = url, rtimestamp = now h\<rparr>],
             prefetchedUrls := (prefetchedUrls pf)(rurl (hd (activeSpeculationRules pf)) := None)\<rparr>)"
  using assms
  by (cases "activeSpeculationRules pf")
     (simp_all add: addSpeculationRule_def removeOldestRule_def Let_def)

text \<open>
  Calls that run one after the other. Whatever operations are run on a new prefetcher, the
  rule list holds at most 10 entries; and when it holds 10, an insertion whose script
  injection succeeds drops the first (earliest inserted) entry and appends the new one.
\<close>

lemma capacity_fifo_uninterrupted:
  "length (activeSpeculationRules (run_ops P ops new_prefetcher)) \<le> 10
   \<and> (length (activeSpeculationRules (run_ops P ops new_prefetcher)) = 10 \<and> scriptOk h \<longrightarrow>
        activeSpeculationRules (snd (addSpeculationRule h ty url (run_ops P ops new_prefetcher)))
          = tl (activeSpeculationRules (run_ops P ops new_prefetcher))
            @ [\<lparr>rtype = ty, rurl = url, rtimestamp = now h\<rparr>])"
proof -
  have c: "cap_ok (run_ops P ops new_prefetcher)"
    by (rule cap_ok_run_ops [OF cap_ok_new_prefetcher])
  then have m: "maxRules (run_ops P ops new_prefetcher) = 10"
    by (simp add: cap_ok_def)
  show ?thesis
    using c addSpeculationRule_at_capacity [OF m, of h ty url]
    by (simp add: cap_ok_def)
qed

lemma ex_ten_rules:
  "map rurl (activeSpeculationRules (run_ops parseURL ex_ten new_prefetcher)) =
     [''http://a/1'', ''http://a/2'', ''http://a/3'', ''http://a/4'', ''http://a/5'',
      ''http://a/6'', ''http://a/7'', ''http://a/8'', ''http://a/9'', ''http://a/10'']"
  by (simp add: ex_ten_def prefetcher_eval)

lemma ex_ten_untracked:
  "prefetchedUrls (run_ops parseURL ex_ten new_prefetcher) ''http://a/11'' = None"
  "prefetchedUrls (run_ops parseURL ex_ten new_prefetcher) ''http://a/12'' = None"
  by (simp_all add: ex_ten_def prefetcher_eval)

lemma ex_ten_after_eleventh:
  "map rurl (activeSpeculationRules (apply_op parseURL (CallPrefetch (ex_host 11) ''http://a/11'')
      (run_ops parseURL ex_ten new_prefetcher)))
     = [''http://a/2'', ''http://a/3'', ''http://a/4'', ''http://a/5'', ''http://a/6'',
        ''http://a/7'', ''http://a/8'', ''http://a/9'', ''http://a/10'', ''http://a/11'']"
  by (simp add: ex_ten_def prefetcher_eval removeOldestRule_def)

text \<open>
  A call in phases that is not interrupted does what the call in one piece does.
\<close>

lemma uninterrupted_prefetch:
  "w_prefetcher (run_worker P [Begin i Prefetch h url, Settle i h, Settle i h] (idle pf))
     = prefetch P h url pf"
  by (cases "activeSpeculationRules pf")
     (auto simp: idle_def call_begin_def prefetch_def addSpeculationRule_def removeOldestRule_def
        track_def Let_def)

lemma uninterrupted_prerender:
  "w_prefetcher (run_worker P [Begin i Prerender h url, Settle i h, Settle i h] (idle pf))
     = prerender P h url pf"
  by (cases "activeSpeculationRules pf")
     (auto simp: idle_def call_begin_def prerender_def addSpeculationRule_def removeOldestRule_def
        track_def Let_def)

lemma overlap_exceeds_capacity:
  assumes "maxRules pf = 10" "length (activeSpeculationRules pf) = 10"
    and "prefetchedUrls pf u1 = None" "prefetchedUrls pf u2 = None"
    and "\<not> connSaveData h1" "\<not> connSaveData h2" "scriptOk h4" "scriptOk h5"
  shows "length (activeSpeculationRules (w_prefetcher (run_worker P
           [Begin 1 ty1 h1 u1, Begin 2 ty2 h2 u2, Settle 1 h3, Settle 2 h4, Settle 1 h5]
           (idle pf)))) = 11"
  using assms
  by (cases "activeSpeculationRules pf")
     (auto simp: idle_def call_begin_def track_def)

text \<open>
  C4, at the failing input. Ten rules are active. A first \<^verbatim>\<open>prefetch\<close> finds the list at
  capacity, removes the oldest rule and awaits the removal script; a second \<^verbatim>\<open>prefetch\<close>,
  started meanwhile, finds nine rules, removes nothing and awaits its injection script. When
  both injections have settled, each call has pushed its rule: the list holds 11 rules,
  one more than \<^verbatim>\<open>maxRules\<close>.
\<close>

theorem C4_overlapping_calls_exceed_capacity:
  "maxRules (run_ops parseURL ex_ten new_prefetcher) = 10
   \<and> length (activeSpeculationRules (run_ops parseURL ex_ten new_prefetcher)) = 10
   \<and> map rurl (activeSpeculationRules (w_prefetcher (run_worker parseURL ex_overlap
        (idle (run_ops parseURL ex_ten new_prefetcher)))))
     = [''http://a/2'', ''http://a/3'', ''http://a/4'', ''http://a/5'', ''http://a/6'',
        ''http://a/7'', ''http://a/8'', ''http://a/9'', ''http://a/10'', ''http://a/12'',
        ''http://a/11'']
   \<and> length (activeSpeculationRules (w_prefetcher (run_worker parseURL ex_overlap
        (idle (run_ops parseURL ex_ten new_prefetcher))))) = 11"
proof -
  have c: "cap_ok (run_ops parseURL ex_ten new_prefetcher)"
    by (rule cap_ok_run_ops [OF cap_ok_new_prefetcher])
  have m: "maxRules (run_ops parseURL ex_ten new_prefetcher) = 10"
    using c by (simp add: cap_ok_def)
  have len: "length (activeSpeculationRules (run_ops parseURL ex_ten new_prefetcher)) = 10"
    using arg_cong [OF ex_ten_rules, of length] by simp
  have h: "\<not> connSaveData (ex_host 11)" "scriptOk (ex_host 13)" "scriptOk (ex_host 14)"
    by (simp_all add: ex_host_def)
  obtain r rs where rs: "activeSpeculationRules (run_ops parseURL ex_ten new_prefetcher) = r # rs"
    using len by (cases "activeSpeculationRules (run_ops parseURL ex_ten new_prefetcher)") simp_all
  have urls: "map rurl rs = [''http://a/2'', ''http://a/3'', ''http://a/4'', ''http://a/5'',
      ''http://a/6'', ''http://a/7'', ''http://a/8'', ''http://a/9'', ''http://a/10'']"
    using ex_ten_rules unfolding rs by simp
  have run: "activeSpeculationRules (w_prefetcher (run_worker parseURL ex_overlap
        (idle (run_ops parseURL ex_ten new_prefetcher))))
      = rs @ [\<lparr>rtype = Prefetch, rurl = ''http://a/12'', rtimestamp = now (ex_host 13)\<rparr>,
              \<lparr>rtype = Prefetch, rurl = ''http://a/11'', rtimestamp = now (ex_host 14)\<rparr>]"
    using m len h ex_ten_untracked
    by (simp add: ex_overlap_def idle_def call_begin_def track_def rs)
  have len_rs: "length rs = 9"
    using len unfolding rs by simp
  show ?thesis
    using m len urls len_rs by (simp add: run)
qed

lemma ex_tracked_state:
  "prefetchedUrls ex_tracked = [''https://a.com/x'' \<mapsto> \<lparr>ptype = Prefetch, ptimestamp = 0\<rparr>]"
  "activeSpeculationRules ex_tracked
     = [\<lparr>rtype = Prefetch, rurl = ''https://a.com/x/'', rtimestamp = 0\<rparr>]"
  "maxRules ex_tracked = 10"
  by (simp_all add: ex_tracked_def prefetcher_eval)

lemma normalize_trailing_slash:
  "normalize parseURL ''https://a.com/x/'' = ''https://a.com/x''"
  by (simp add: prefetcher_eval)

text \<open>
  C3, at the failing input. After \<^verbatim>\<open>prefetch('https://a.com/x/')\<close> the URL has an active
  directive under its normalised key. A second \<^verbatim>\<open>prefetch\<close> of the same URL is not a
  no-op: the first test looks up the unnormalised string, misses, and a second rule for
  the same URL is appended.
\<close>

theorem C3_duplicate_rule:
  "wasPrefetched parseURL ex_tracked ''https://a.com/x/''
   \<and> length (activeSpeculationRules ex_tracked) = 1
   \<and> map rurl (activeSpeculationRules
        (prefetch parseURL (ex_host 5) ''https://a.com/x/'' ex_tracked))
     = [''https://a.com/x/'', ''https://a.com/x/'']"
  by (simp add: wasPrefetched_def normalize_trailing_slash ex_tracked_state prefetch_def
      addSpeculationRule_def track_def ex_host_def)

text \<open>
  What does hold for the speculation tiers: a URL that is tracked under the very string
  passed (a URL that is its own normal form, say) makes \<^verbatim>\<open>prefetch\<close> and
  \<^verbatim>\<open>prerender\<close> return at once.
\<close>

lemma speculation_noop_when_key_present:
  "prefetchedUrls pf url \<noteq> None \<Longrightarrow>
     prefetch P h url pf = pf \<and> prerender P h url pf = pf"
  by (simp add: prefetch_def prerender_def)

text \<open>
  The lighter hints have no such test: on a URL that is already tracked they overwrite the
  entry under its normalised key, so the keys of the index and the rule list stay as
  they are.
\<close>

lemma hint_on_tracked_url:
  assumes "wasPrefetched P pf url"
  shows "dom (prefetchedUrls (dnsPrefetch P h url pf)) = dom (prefetchedUrls pf)"
    and "dom (prefetchedUrls (preconnect P h url pf)) = dom (prefetchedUrls pf)"
    and "activeSpeculationRules (dnsPrefetch P h url pf) = activeSpeculationRules pf"
    and "activeSpeculationRules (preconnect P h url pf) = activeSpeculationRules pf"
  using assms
  by (auto simp: wasPrefetched_def dnsPrefetch_def preconnect_def track_def
      split: option.splits)

lemma track_keeps:
  "wasPrefetched P pf url \<Longrightarrow> wasPrefetched P (track P h url' ty pf) url"
  by (simp add: wasPrefetched_def track_def)

lemma addSpeculationRule_below_capacity:
  "length (activeSpeculationRules pf) < maxRules pf \<Longrightarrow>
     prefetchedUrls (snd (addSpeculationRule h ty url' pf)) = prefetchedUrls pf"
  by (simp add: addSpeculationRule_def Let_def)

lemma issue_keeps:
  assumes w: "wasPrefetched P pf url"
    and below: "length (activeSpeculationRules pf) < maxRules pf"
    and issue: "is_issue op"
  shows "wasPrefetched P (apply_op P op pf) url"
proof (cases op)
  case (CallPrefetch h u)
  have "wasPrefetched P (snd (addSpeculationRule h Prefetch u pf)) url"
    using w addSpeculationRule_below_capacity [OF below] by (simp add: wasPrefetched_def)
  then show ?thesis
    using w
    by (auto simp: CallPrefetch prefetch_def track_keeps split: prod.splits option.splits)
next
  case (CallPrerender h u)
  have "wasPrefetched P (snd (addSpeculationRule h Prerender u pf)) url"
    using w addSpeculationRule_below_capacity [OF below] by (simp add: wasPrefetched_def)
  then show ?thesis
    using w
    by (auto simp: CallPrerender prerender_def track_keeps split: prod.splits option.splits)
next
  case (CallDnsPrefetch h u)
  then show ?thesis
    using w by (auto simp: dnsPrefetch_def track_keeps split: option.splits)
next
  case (CallPreconnect h u)
  then show ?thesis
    using w by (auto simp: preconnect_def track_keeps split: option.splits)
next
  case (CallClearOld t m)
  then show ?thesis
    using issue by simp
qed

lemma wasPrefetched_clearOldPrefetches:
  "wasPrefetched P (clearOldPrefetches t maxAgeMs pf) url \<longleftrightarrow>
     (\<exists>d. prefetchedUrls pf (normalize P url) = Some d \<and> t - ptimestamp d \<le> maxAgeMs)"
  by (auto simp: wasPrefetched_def clearOldPrefetches_def split: option.splits)

text \<open>
  C2 (amended). Age alone removes nothing: \<^verbatim>\<open>wasPrefetched\<close> reads no clock, and below
  capacity no issuing operation removes an entry, however old. An entry older than
  \<^verbatim>\<open>maxAgeMs\<close> disappears when \<^verbatim>\<open>clearOldPrefetches\<close> runs, which keeps exactly the entries
  that are not older.
\<close>

theorem C2_expiry_by_clearOldPrefetches:
  "(wasPrefetched P (clearOldPrefetches t maxAgeMs pf) url \<longleftrightarrow>
      (\<exists>d. prefetchedUrls pf (normalize P url) = Some d \<and> t - ptimestamp d \<le> maxAgeMs))
   \<and> (wasPrefetched P pf url \<and> length (activeSpeculationRules pf) < maxRules pf \<and> is_issue op
        \<longrightarrow> wasPrefetched P (apply_op P op pf) url)"
  using wasPrefetched_clearOldPrefetches issue_keeps by blast

theorem C2_expiry_by_clearOldPrefetches_witness:
  "\<not> wasPrefetched parseURL (clearOldPrefetches 70000 60000 ex_tracked) ''https://a.com/x/''
   \<and> wasPrefetched parseURL (clearOldPrefetches 50000 60000 ex_tracked) ''https://a.com/x/''
   \<and> wasPrefetched parseURL ex_tracked ''https://a.com/x/''
   \<and> length (activeSpeculationRules ex_tracked) < maxRules ex_tracked
   \<and> is_issue (CallPreconnect (ex_host 70000) ''https://a.com/y'')
   \<and> wasPrefetched parseURL
        (apply_op parseURL (CallPreconnect (ex_host 70000) ''https://a.com/y'') ex_tracked)
        ''https://a.com/x/''"
proof -
  have pre: "wasPrefetched parseURL ex_tracked ''https://a.com/x/''
      \<and> length (activeSpeculationRules ex_tracked) < maxRules ex_tracked
      \<and> is_issue (CallPreconnect (ex_host 70000) ''https://a.com/y'')"
    by (simp add: wasPrefetched_def normalize_trailing_slash ex_tracked_state)
  have old: "\<not> (\<exists>d. prefetchedUrls ex_tracked (normalize parseURL ''https://a.com/x/'') = Some d
                   \<and> 70000 - ptimestamp d \<le> 60000)"
    by (simp add: normalize_trailing_slash ex_tracked_state)
  have young: "\<exists>d. prefetchedUrls ex_tracked (normalize parseURL ''https://a.com/x/'') = Some d
                   \<and> 50000 - ptimestamp d \<le> 60000"
    by (simp add: normalize_trailing_slash ex_tracked_state)
  show ?thesis
    using pre old young
      C2_expiry_by_clearOldPrefetches [of parseURL 70000 60000 ex_tracked "''https://a.com/x/''"
        "CallPreconnect (ex_host 70000) ''https://a.com/y''"]
      C2_expiry_by_clearOldPrefetches [of parseURL 50000 60000 ex_tracked "''https://a.com/x/''"
        "CallPreconnect (ex_host 70000) ''https://a.com/y''"]
    by blast
qed

text \<open>
  The claim as stated fails: a directive issued at clock reading 0 is still reported by
  \<^verbatim>\<open>wasPrefetched\<close> after a further insertion at clock reading 70000, ten seconds past the
  60 s age.
\<close>

theorem C2_old_directive_still_reported:
  "map_option ptimestamp (prefetchedUrls ex_tracked (normalize parseURL ''https://a.com/x/''))
     = Some 0
   \<and> wasPrefetched parseURL ex_tracked ''https://a.com/x/''
   \<and> now (ex_host 70000) - 0 > 60000
   \<and> wasPrefetched parseURL
        (prefetch parseURL (ex_host 70000) ''https://a.com/y'' ex_tracked) ''https://a.com/x/''"
  by (simp add: wasPrefetched_def normalize_trailing_slash ex_tracked_state prefetch_def
      addSpeculationRule_def track_def ex_host_def)

subsection \<open>Service worker and trust list\<close>

lemma tracker_domain_untrusted:
  "getTrustLevel parseURL new_trust_list ''https://doubleclick.net/ad'' = ''untrusted''"
  by (simp add: getTrustLevel_def extractDomain_def parseURL_def startsWith_def Let_def
      new_trust_list_def isKnownTracker_def listed_def KNOWN_TRACKERS_def)

text \<open>
  C1, at the failing input. The trust list forbids both prefetch and prerender for a URL
  on a known tracker domain; the service, in its initial (balanced) profile, still issues
  a prerender for it at score 90: the rule is in the list and the URL is tracked as
  prerendered. The handler never consults the trust list.
\<close>

theorem C1_prerender_without_trust:
  "\<not> canPrerender parseURL new_trust_list ''https://doubleclick.net/ad''
   \<and> \<not> canPrefetch parseURL new_trust_list ''https://doubleclick.net/ad''
   \<and> activeSpeculationRules (svc_prefetcher (handlePredictions parseURL
        [(ex_host 1, \<lparr>link_url = ''https://doubleclick.net/ad'', link_score = 90\<rparr>)] new_service))
     = [\<lparr>rtype = Prerender, rurl = ''https://doubleclick.net/ad'', rtimestamp = 1\<rparr>]
   \<and> getPrefetchType parseURL (svc_prefetcher (handlePredictions parseURL
        [(ex_host 1, \<lparr>link_url = ''https://doubleclick.net/ad'', link_score = 90\<rparr>)] new_service))
        ''https://doubleclick.net/ad''
     = Some Prerender"
  by (simp add: canPrerender_def canPrefetch_def tracker_domain_untrusted
      handlePredictions_def new_service_def getProfile_def new_context_manager_def
      getPrefetchType_def prefetcher_eval)

subsection \<open>Link predictor: the grace boost and its timers\<close>

lemma getGraceBoost_scores: "scores (snd (getGraceBoost url cur cd pr)) = scores pr"
  by (simp add: getGraceBoost_def split: option.splits)

lemma getGraceBoost_nonneg: "0 \<le> fst (getGraceBoost url cur cd pr)"
  by (simp add: getGraceBoost_def split: option.splits)

lemma getGraceBoost_nonzero:
  assumes "fst (getGraceBoost url cur cd pr) \<noteq> 0"
  shows "\<exists>prev. scores pr url = Some prev \<and> s_score prev > cur \<and> cur > 50
           \<and> fst (getGraceBoost url cur cd pr) = s_score prev - cur
           \<and> graceTimers pr url = None \<and> c_speed cd < 50"
  using assms by (auto simp: getGraceBoost_def split: option.splits if_splits)

lemma getGraceBoost_low:
  "cur \<le> 50 \<Longrightarrow> getGraceBoost url cur cd pr = (0, pr)"
  by (simp add: getGraceBoost_def)

lemma getGraceBoost_active:
  "graceTimers pr url \<noteq> None \<Longrightarrow> getGraceBoost url cur cd pr = (0, pr)"
  by (auto simp: getGraceBoost_def)

lemma getGraceBoost_timers_ok:
  assumes "timers_ok pr"
  shows "timers_ok (snd (getGraceBoost url cur cd pr))"
proof (cases "snd (getGraceBoost url cur cd pr) = pr")
  case True
  then show ?thesis using assms by simp
next
  case False
  then obtain prev where p: "scores pr url = Some prev" "s_score prev > cur"
      "c_speed cd < 50 \<and> cur > 50" "graceTimers pr url = None"
    by (auto simp: getGraceBoost_def split: option.splits if_splits)
  then have e: "snd (getGraceBoost url cur cd pr) =
      pr\<lparr>graceTimers := (graceTimers pr)(url \<mapsto> nextHandle pr),
         pendingTimeouts := pendingTimeouts pr @ [(nextHandle pr, url)],
         nextHandle := nextHandle pr + 1\<rparr>"
    by (simp add: getGraceBoost_def)
  have "graceTimers pr url \<noteq> None \<longleftrightarrow> url \<in> set (map snd (pendingTimeouts pr))"
    using assms unfolding timers_ok_def by blast
  then have fresh: "url \<notin> set (map snd (pendingTimeouts pr))"
    using p(4) by simp
  have hfresh: "nextHandle pr \<notin> set (map fst (pendingTimeouts pr))"
    using assms by (auto simp: timers_ok_def)
  show ?thesis
    unfolding e using assms fresh hfresh
    by (auto simp: timers_ok_def less_Suc_eq)
qed

lemma distinct_filter_eq_le_1: "distinct xs \<Longrightarrow> length (filter (\<lambda>u. u = x) xs) \<le> 1"
  by (induction xs) (auto simp: filter_empty_conv)

lemma timersFor_alt: "timersFor pr url = length (filter (\<lambda>u. u = url) (map snd (pendingTimeouts pr)))"
  by (simp add: timersFor_def filter_map comp_def case_prod_unfold)

lemma timersFor_le_1: "timers_ok pr \<Longrightarrow> timersFor pr url \<le> 1"
  unfolding timersFor_alt by (rule distinct_filter_eq_le_1) (simp add: timers_ok_def)

lemma timersFor_pos_active:
  assumes "timers_ok pr" "timersFor pr url \<ge> 1"
  shows "graceTimers pr url \<noteq> None"
proof -
  have "filter (\<lambda>(k, u). u = url) (pendingTimeouts pr) \<noteq> []"
    using assms(2) by (auto simp: timersFor_def)
  then obtain p where "p \<in> set (pendingTimeouts pr)" "snd p = url"
    by (auto simp: filter_empty_conv)
  then have "url \<in> set (map snd (pendingTimeouts pr))"
    by force
  then show ?thesis
    using assms(1) unfolding timers_ok_def by blast
qed

lemma timeoutFires_timers_ok:
  assumes "timers_ok pr"
  shows "timers_ok (timeoutFires h pr)"
proof (cases "find (\<lambda>(k, url). k = h) (pendingTimeouts pr)")
  case None
  then show ?thesis using assms by (simp add: timeoutFires_def)
next
  case (Some a)
  obtain k url where a: "a = (k, url)" by (cases a)
  from Some a have mem: "(h, url) \<in> set (pendingTimeouts pr)"
    by (auto simp: find_Some_iff in_set_conv_nth)
  have e: "timeoutFires h pr = pr\<lparr>pendingTimeouts := filter (\<lambda>(k', url'). k' \<noteq> h) (pendingTimeouts pr),
             graceTimers := (graceTimers pr)(url := None)\<rparr>"
    using Some a by (simp add: timeoutFires_def)
  have d1: "distinct (map fst (pendingTimeouts pr))" and d2: "distinct (map snd (pendingTimeouts pr))"
    using assms by (simp_all add: timers_ok_def)
  have uniq_h: "u = url" if "(h, u) \<in> set (pendingTimeouts pr)" for u
    using d1 mem that by (rule_tac eq_key_imp_eq_value)
  have inj: "inj_on snd (set (pendingTimeouts pr))"
    using d2 by (simp add: distinct_map)
  have uniq_u: "k' = h" if "(k', url) \<in> set (pendingTimeouts pr)" for k'
    using inj_onD [OF inj _ that mem] by simp
  have s: "set (map snd (filter (\<lambda>(k', url'). k' \<noteq> h) (pendingTimeouts pr)))
             = set (map snd (pendingTimeouts pr)) - {url}"
  proof (intro set_eqI iffI)
    fix x assume "x \<in> set (map snd (filter (\<lambda>(k', url'). k' \<noteq> h) (pendingTimeouts pr)))"
    then obtain k' where k': "(k', x) \<in> set (pendingTimeouts pr)" "k' \<noteq> h" by auto
    then have "x \<noteq> url" using uniq_u by blast
    then show "x \<in> set (map snd (pendingTimeouts pr)) - {url}" using k'(1) by force
  next
    fix x assume "x \<in> set (map snd (pendingTimeouts pr)) - {url}"
    then obtain k' where k': "(k', x) \<in> set (pendingTimeouts pr)" "x \<noteq> url" by auto
    then have "k' \<noteq> h" using uniq_h by blast
    then show "x \<in> set (map snd (filter (\<lambda>(k', url'). k' \<noteq> h) (pendingTimeouts pr)))"
      using k'(1) by force
  qed
  have g: "\<forall>u. graceTimers pr u \<noteq> None \<longleftrightarrow> u \<in> set (map snd (pendingTimeouts pr))"
    using assms unfolding timers_ok_def by blast
  have n: "\<forall>k \<in> set (map fst (pendingTimeouts pr)). k < nextHandle pr"
    using assms unfolding timers_ok_def by blast
  have c1: "distinct (map fst (filter (\<lambda>(k', url'). k' \<noteq> h) (pendingTimeouts pr)))"
    using d1 by (rule distinct_map_filter)
  have c2: "distinct (map snd (filter (\<lambda>(k', url'). k' \<noteq> h) (pendingTimeouts pr)))"
    using d2 by (rule distinct_map_filter)
  have c3: "\<forall>k \<in> set (map fst (filter (\<lambda>(k', url'). k' \<noteq> h) (pendingTimeouts pr))). k < nextHandle pr"
    using n by auto
  have c4: "\<forall>u. ((graceTimers pr)(url := None)) u \<noteq> None
              \<longleftrightarrow> u \<in> set (map snd (filter (\<lambda>(k', url'). k' \<noteq> h) (pendingTimeouts pr)))"
    unfolding s using g by simp
  show ?thesis
    unfolding e timers_ok_def using c1 c2 c3 c4 by simp
qed


subsection \<open>Link predictor: one catalogue entry, one batch, a run\<close>

text \<open>
  What a turn of the loop does: it skips the entry, or it scores it at most 30 and writes
  nothing, or it scores it in \<open>(30, 100]\<close> and writes the record and the result.
\<close>

lemma scoreLink_result:
  obtains (skip) "scoreLink pg cd d (pr, rs) = (d, pr, rs)"
  | (low) f where "scoreLink pg cd d (pr, rs) = (d\<lparr>l_score := f\<rparr>, pr, rs)" "f \<le> 30"
  | (high) f b where
      "scoreLink pg cd d (pr, rs) =
         (d\<lparr>l_score := f\<rparr>,
          (snd (getGraceBoost (l_url d) (totalScore b) cd pr))
            \<lparr>scores := (scores pr)(l_url d \<mapsto> \<lparr>s_score = f, s_timestamp = e_now pg, s_breakdown = b\<rparr>)\<rparr>,
          rs @ [\<lparr>res_url = l_url d, res_element = l_element d, res_score = f\<rparr>])"
      "30 < f" "f \<le> 100"
proof -
  define dx where "dx = r_left (l_rect d) + r_width (l_rect d) / 2 - px (c_position cd)"
  define dy where "dy = r_top (l_rect d) + r_height (l_rect d) / 2 - py (c_position cd)"
  define b where "b = linkBreakdown pg cd pr d"
  define g where "g = getGraceBoost (l_url d) (totalScore b) cd pr"
  define f where "f = min 100 (totalScore b + fst g)"
  show ?thesis
  proof (cases "\<not> l_isVisible d \<or> dx * dx + dy * dy > 250000")
    case True
    then have "scoreLink pg cd d (pr, rs) = (d, pr, rs)"
      unfolding dx_def dy_def by (auto simp: scoreLink_def Let_def)
    then show ?thesis by (rule skip)
  next
    case False
    then have proc: "scoreLink pg cd d (pr, rs) =
        (if f > 30
         then (d\<lparr>l_score := f\<rparr>,
               (snd g)\<lparr>scores := (scores (snd g))(l_url d \<mapsto>
                   \<lparr>s_score = f, s_timestamp = e_now pg, s_breakdown = b\<rparr>)\<rparr>,
               rs @ [\<lparr>res_url = l_url d, res_element = l_element d, res_score = f\<rparr>])
         else (d\<lparr>l_score := f\<rparr>, snd g, rs))"
      unfolding dx_def dy_def f_def g_def b_def by (simp add: scoreLink_def Let_def)
    show ?thesis
    proof (cases "f > 30")
      case True
      have "f \<le> 100" by (simp add: f_def)
      moreover have "scores (snd g) = scores pr"
        by (simp add: g_def getGraceBoost_scores)
      ultimately show ?thesis
        using proc True high [of f b] unfolding g_def by simp
    next
      case False
      then have "totalScore b + fst g \<le> 30"
        by (simp add: f_def min_def split: if_splits)
      moreover have "0 \<le> fst g"
        by (simp add: g_def getGraceBoost_nonneg)
      ultimately have "totalScore b \<le> 50" by linarith
      then have "g = (0, pr)"
        unfolding g_def by (rule getGraceBoost_low)
      then show ?thesis
        using proc False low [of f] by simp
    qed
  qed
qed

lemma scoreLink_scores_in_range:
  assumes "scores_in_range pr"
  shows "scores_in_range (fst (snd (scoreLink pg cd d (pr, rs))))"
proof (cases rule: scoreLink_result [of pg cd d pr rs])
  case skip
  then show ?thesis using assms by simp
next
  case (low f)
  then show ?thesis using assms by simp
next
  case (high f b)
  then show ?thesis
    using assms by (auto simp: scores_in_range_def getGraceBoost_scores)
qed

lemma scoreLink_timers_ok:
  assumes "timers_ok pr"
  shows "timers_ok (fst (snd (scoreLink pg cd d (pr, rs))))"
proof (cases rule: scoreLink_result [of pg cd d pr rs])
  case skip
  then show ?thesis using assms by simp
next
  case (low f)
  then show ?thesis using assms by simp
next
  case (high f b)
  have "timers_ok (snd (getGraceBoost (l_url d) (totalScore b) cd pr))"
    using assms by (rule getGraceBoost_timers_ok)
  then show ?thesis
    using high(1) by (simp add: timers_ok_def)
qed

lemma scoreLink_results_in_range:
  assumes "results_in_range rs"
  shows "results_in_range (snd (snd (scoreLink pg cd d (pr, rs))))"
proof (cases rule: scoreLink_result [of pg cd d pr rs])
  case skip
  then show ?thesis using assms by simp
next
  case (low f)
  then show ?thesis using assms by simp
next
  case (high f b)
  then show ?thesis
    using assms by (auto simp: results_in_range_def)
qed

lemma scoreLink_only_high_written:
  "only_high_written pg pr (fst (snd (scoreLink pg cd d (pr, rs))))"
proof (cases rule: scoreLink_result [of pg cd d pr rs])
  case skip
  then show ?thesis by (simp add: only_high_written_def)
next
  case (low f)
  then show ?thesis by (simp add: only_high_written_def)
next
  case (high f b)
  then show ?thesis
    by (auto simp: only_high_written_def)
qed

lemma only_high_written_trans:
  "only_high_written pg a b \<Longrightarrow> only_high_written pg b c \<Longrightarrow> only_high_written pg a c"
  unfolding only_high_written_def by metis

lemma only_high_written_refl: "only_high_written pg a a"
  by (simp add: only_high_written_def)

lemma scoreLinks_invariants:
  "(scores_in_range pr \<longrightarrow> scores_in_range (fst (snd (scoreLinks pg cd ds (pr, rs)))))
   \<and> (timers_ok pr \<longrightarrow> timers_ok (fst (snd (scoreLinks pg cd ds (pr, rs)))))
   \<and> (results_in_range rs \<longrightarrow> results_in_range (snd (snd (scoreLinks pg cd ds (pr, rs)))))
   \<and> only_high_written pg pr (fst (snd (scoreLinks pg cd ds (pr, rs))))"
proof (induction ds arbitrary: pr rs)
  case Nil
  then show ?case by (simp add: only_high_written_refl)
next
  case (Cons d ds)
  obtain d1 pr1 rs1 where s: "scoreLink pg cd d (pr, rs) = (d1, pr1, rs1)"
    by (cases "scoreLink pg cd d (pr, rs)") auto
  have e: "snd (scoreLinks pg cd (d # ds) (pr, rs)) = snd (scoreLinks pg cd ds (pr1, rs1))"
    by (simp add: s split: prod.splits)
  have a: "scores_in_range pr \<longrightarrow> scores_in_range pr1"
    using scoreLink_scores_in_range [of pr pg cd d rs] s by simp
  have b: "timers_ok pr \<longrightarrow> timers_ok pr1"
    using scoreLink_timers_ok [of pr pg cd d rs] s by simp
  have c: "results_in_range rs \<longrightarrow> results_in_range rs1"
    using scoreLink_results_in_range [of rs pg cd d pr] s by simp
  have w: "only_high_written pg pr pr1"
    using scoreLink_only_high_written [of pg pr cd d rs] s by simp
  show ?case
    unfolding e using Cons.IH [of pr1 rs1] a b c w only_high_written_trans by blast
qed


lemma calculateScores_invariants:
  "(scores_in_range pr \<longrightarrow> scores_in_range (after (calculateScores pg cd pr)))
   \<and> (timers_ok pr \<longrightarrow> timers_ok (after (calculateScores pg cd pr)))
   \<and> only_high_written pg pr (after (calculateScores pg cd pr))
   \<and> (\<forall>rs. returned (calculateScores pg cd pr) = Some rs \<longrightarrow> results_in_range rs)
   \<and> (\<forall>ms. sent (calculateScores pg cd pr) = Some ms \<longrightarrow>
         (\<forall>m \<in> set ms. 30 < link_score m \<and> link_score m \<le> 100))"
proof -
  define pr0 where "pr0 = pr\<lparr>lastBatchTime := e_now pg\<rparr>"
  obtain ds pr1 rs where s: "scoreLinks pg cd (links pr0) (pr0, []) = (ds, pr1, rs)"
    by (cases "scoreLinks pg cd (links pr0) (pr0, [])") auto
  have i0: "scores_in_range pr0 = scores_in_range pr" "timers_ok pr0 = timers_ok pr"
    "only_high_written pg pr pr0"
    by (simp_all add: pr0_def scores_in_range_def timers_ok_def only_high_written_def)
  have inv: "(scores_in_range pr0 \<longrightarrow> scores_in_range pr1)
      \<and> (timers_ok pr0 \<longrightarrow> timers_ok pr1)
      \<and> results_in_range rs \<and> only_high_written pg pr0 pr1"
    using scoreLinks_invariants [of pr0 pg cd "links pr0" "[]"] s
    by (simp add: results_in_range_def)
  have l: "scores_in_range (pr1\<lparr>links := ds\<rparr>) = scores_in_range pr1"
    "timers_ok (pr1\<lparr>links := ds\<rparr>) = timers_ok pr1"
    "only_high_written pg pr (pr1\<lparr>links := ds\<rparr>) = only_high_written pg pr pr1"
    by (simp_all add: scores_in_range_def timers_ok_def only_high_written_def)
  have w: "only_high_written pg pr pr1"
    using i0(3) inv only_high_written_trans by blast
  have sorted_range: "results_in_range (sort_key (\<lambda>r. - res_score r) rs)"
    using inv by (simp add: results_in_range_def)
  have msgs: "\<forall>m \<in> set (map (\<lambda>l. \<lparr>link_url = res_url l, link_score = res_score l\<rparr>)
                 (take 5 (sort_key (\<lambda>r. - res_score r) rs))).
               30 < link_score m \<and> link_score m \<le> 100"
    using sorted_range by (auto simp: results_in_range_def dest: in_set_takeD)
  show ?thesis
  proof (cases "e_now pg - lastBatchTime pr < currentInterval pg pr")
    case True
    then show ?thesis
      by (simp add: calculateScores_def only_high_written_refl)
  next
    case False
    show ?thesis
    proof (cases "case e_scrollSpeed pg of None \<Rightarrow> False | Some v \<Rightarrow> v > 100")
      case True
      then show ?thesis
        using False i0 by (simp add: calculateScores_def pr0_def [symmetric])
    next
      case scroll: False
      have nil: "sort_key (\<lambda>r. - res_score r) rs = [] \<longleftrightarrow> rs = []"
        by (metis length_sort length_0_conv)
      have e: "calculateScores pg cd pr =
          \<lparr>returned = Some (sort_key (\<lambda>r. - res_score r) rs),
           sent = (if length (sort_key (\<lambda>r. - res_score r) rs) > 0
                   then Some (map (\<lambda>l. \<lparr>link_url = res_url l, link_score = res_score l\<rparr>)
                                (take 5 (sort_key (\<lambda>r. - res_score r) rs)))
                   else None),
           after = pr1\<lparr>links := ds\<rparr>\<rparr>"
        using False scroll s
        by (simp add: calculateScores_def pr0_def [symmetric] Let_def nil)
      show ?thesis
        unfolding e using inv i0 l w sorted_range msgs
        by (simp split: if_splits)
    qed
  qed
qed

lemma on_event_invariants:
  "(scores_in_range pr \<longrightarrow> scores_in_range (on_event ev pr))
   \<and> (timers_ok pr \<longrightarrow> timers_ok (on_event ev pr))"
proof (cases ev)
  case (Batch pg cd)
  then show ?thesis using calculateScores_invariants [of pr pg cd] by simp
next
  case (TimeoutFires h)
  have "scores (timeoutFires h pr) = scores pr"
    by (simp add: timeoutFires_def split: option.splits prod.splits)
  then show ?thesis
    using TimeoutFires timeoutFires_timers_ok [of pr h] by (simp add: scores_in_range_def)
next
  case (CatalogueChange ds)
  then show ?thesis by (simp add: scores_in_range_def timers_ok_def)
next
  case (HistoryResponse u v)
  then show ?thesis by (simp add: scores_in_range_def timers_ok_def)
next
  case (ChargingChange c)
  then show ?thesis by (simp add: scores_in_range_def timers_ok_def)
qed

lemma run_events_invariants:
  "(scores_in_range pr \<longrightarrow> scores_in_range (run_events evs pr))
   \<and> (timers_ok pr \<longrightarrow> timers_ok (run_events evs pr))"
proof (induction evs arbitrary: pr)
  case Nil
  then show ?case by simp
next
  case (Cons ev evs)
  show ?case
    using Cons.IH [of "on_event ev pr"] on_event_invariants [of pr ev] by simp
qed

lemma new_predictor_invariants: "scores_in_range new_predictor" "timers_ok new_predictor"
  by (simp_all add: scores_in_range_def timers_ok_def new_predictor_def)

lemma reachable_invariants:
  "scores_in_range (run_events evs new_predictor)" "timers_ok (run_events evs new_predictor)"
  using run_events_invariants [of new_predictor evs] new_predictor_invariants by blast+

subsection \<open>Link predictor: the concrete batches\<close>

lemma sqrt_256: "sqrt 256 = 16"
  using real_sqrt_abs [of 16] by simp

lemma sqrt_246016: "sqrt 246016 = 496"
  using real_sqrt_abs [of 496] by simp

lemma sqrt_1000000: "sqrt 1000000 = 1000"
  using real_sqrt_abs [of 1000] by simp

lemma log2_32: "log 2 32 = 5"
  using log_pow_cancel [of 2 5] by simp

lemma fitts_values:
  "calculateFittsScore 0 80 16 = 100"
  "calculateFittsScore 16 80 16 = 85"
  "calculateFittsScore 496 80 16 = 25"
  by (simp_all add: calculateFittsScore_def Let_def log2_32)

lemma cursor_rest: "getData (ex_rest x) = \<lparr>c_position = \<lparr>px = x, py = 300\<rparr>, c_velocity = \<lparr>vx = 0, vy = 0\<rparr>, c_speed = 0, c_isDecelerating = False\<rparr>"
  by (simp add: getData_def ex_rest_def)

lemma rest_speed: "c_speed (getData (ex_rest x)) = 0"
  by (simp add: cursor_rest)

lemma intention_values:
  "getIntentionScore (ex_rest 600) 600 300 = 1"
  "getIntentionScore (ex_rest 616) 600 300 = 0"
  "getIntentionScore (ex_rest 104) 600 300 = 0"
  by (simp_all add: getIntentionScore_def ex_rest_def Let_def)

lemma breakdown_values:
  assumes "historyCache pr ''https://a.com/x'' = None"
  shows "linkBreakdown (ex_page t 600) (getData (ex_rest 600)) pr (ex_link s)
           = \<lparr>fittsScore = 100, intentionScore = 100, proximityScore = 100, contextScore = 80, historyScore = 40\<rparr>"
    and "linkBreakdown (ex_page t 616) (getData (ex_rest 616)) pr (ex_link s)
           = \<lparr>fittsScore = 85, intentionScore = 0, proximityScore = 492 / 5, contextScore = 80, historyScore = 40\<rparr>"
    and "linkBreakdown (ex_page t 104) (getData (ex_rest 104)) pr (ex_link s)
           = \<lparr>fittsScore = 25, intentionScore = 0, proximityScore = 252 / 5, contextScore = 80, historyScore = 40\<rparr>"
  using assms
  by (simp_all add: linkBreakdown_def cursor_rest ex_link_def ex_page_def Let_def fitts_values
      intention_values sqrt_256 sqrt_246016 sqrt_1000000 getContextScore_def getHistoryScore_def)

lemma total_values:
  "totalScore \<lparr>fittsScore = 100, intentionScore = 100, proximityScore = 100, contextScore = 80, historyScore = 40\<rparr> = 89"
  "totalScore \<lparr>fittsScore = 85, intentionScore = 0, proximityScore = 492 / 5, contextScore = 80, historyScore = 40\<rparr> = 2713 / 50"
  "totalScore \<lparr>fittsScore = 25, intentionScore = 0, proximityScore = 252 / 5, contextScore = 80, historyScore = 40\<rparr> = 1453 / 50"
  by (simp_all add: totalScore_def)


lemma interval: "currentInterval (ex_page t x) pr = 80"
  by (simp add: currentInterval_def ex_page_def BATCH_INTERVAL_MS_def)

lemma ex_link_fields:
  "l_isVisible (ex_link s)" "l_url (ex_link s) = ''https://a.com/x''" "l_element (ex_link s) = 1"
  "l_rect (ex_link s) = \<lparr>r_left = 560, r_top = 292, r_width = 80, r_height = 16\<rparr>"
  "(ex_link s)\<lparr>l_score := s'\<rparr> = ex_link s'"
  by (simp_all add: ex_link_def)

lemma ex_link_score: "l_score (ex_link s) = s"
  by (simp add: ex_link_def)

lemma ex_page_fields: "e_now (ex_page t x) = t" "e_scrollSpeed (ex_page t x) = None"
  by (simp_all add: ex_page_def)

lemma scoreLink_on:
  assumes "historyCache pr ''https://a.com/x'' = None"
  shows "scoreLink (ex_page t 600) (getData (ex_rest 600)) (ex_link s) (pr, rs) =
    (ex_link (min 100 (89 + fst (getGraceBoost ''https://a.com/x'' 89 (getData (ex_rest 600)) pr))),
     (snd (getGraceBoost ''https://a.com/x'' 89 (getData (ex_rest 600)) pr))
       \<lparr>scores := (scores pr)(''https://a.com/x'' \<mapsto>
          \<lparr>s_score = min 100 (89 + fst (getGraceBoost ''https://a.com/x'' 89 (getData (ex_rest 600)) pr)),
           s_timestamp = t, s_breakdown = b_on\<rparr>)\<rparr>,
     rs @ [\<lparr>res_url = ''https://a.com/x'', res_element = 1,
             res_score = min 100 (89 + fst (getGraceBoost ''https://a.com/x'' 89 (getData (ex_rest 600)) pr))\<rparr>])"
proof -
  have g: "0 \<le> fst (getGraceBoost ''https://a.com/x'' 89 (getData (ex_rest 600)) pr)"
    by (rule getGraceBoost_nonneg)
  have near: "\<not> (560 + 80 / 2 - px (c_position (getData (ex_rest 600)))) * (560 + 80 / 2 - px (c_position (getData (ex_rest 600))))
      + (292 + 16 / 2 - py (c_position (getData (ex_rest 600)))) * (292 + 16 / 2 - py (c_position (getData (ex_rest 600)))) > (250000::real)"
    by (simp add: cursor_rest)
  show ?thesis
    unfolding scoreLink_def Let_def
    using g near
    by (simp add: ex_link_fields ex_page_fields breakdown_values(1) [OF assms] total_values
        b_on_def getGraceBoost_scores)
qed

lemma scoreLink_near:
  assumes "historyCache pr ''https://a.com/x'' = None"
  shows "scoreLink (ex_page t 616) (getData (ex_rest 616)) (ex_link s) (pr, rs) =
    (ex_link (min 100 (2713 / 50 + fst (getGraceBoost ''https://a.com/x'' (2713 / 50) (getData (ex_rest 616)) pr))),
     (snd (getGraceBoost ''https://a.com/x'' (2713 / 50) (getData (ex_rest 616)) pr))
       \<lparr>scores := (scores pr)(''https://a.com/x'' \<mapsto>
          \<lparr>s_score = min 100 (2713 / 50 + fst (getGraceBoost ''https://a.com/x'' (2713 / 50) (getData (ex_rest 616)) pr)),
           s_timestamp = t, s_breakdown = b_near\<rparr>)\<rparr>,
     rs @ [\<lparr>res_url = ''https://a.com/x'', res_element = 1,
             res_score = min 100 (2713 / 50 + fst (getGraceBoost ''https://a.com/x'' (2713 / 50) (getData (ex_rest 616)) pr))\<rparr>])"
proof -
  have g: "0 \<le> fst (getGraceBoost ''https://a.com/x'' (2713 / 50) (getData (ex_rest 616)) pr)"
    by (rule getGraceBoost_nonneg)
  have near: "\<not> (560 + 80 / 2 - px (c_position (getData (ex_rest 616)))) * (560 + 80 / 2 - px (c_position (getData (ex_rest 616))))
      + (292 + 16 / 2 - py (c_position (getData (ex_rest 616)))) * (292 + 16 / 2 - py (c_position (getData (ex_rest 616)))) > (250000::real)"
    by (simp add: cursor_rest)
  show ?thesis
    unfolding scoreLink_def Let_def
    using g near
    by (simp add: ex_link_fields ex_page_fields breakdown_values(2) [OF assms] total_values
        b_near_def getGraceBoost_scores)
qed

lemma scoreLink_far:
  assumes "historyCache pr ''https://a.com/x'' = None"
  shows "scoreLink (ex_page t 104) (getData (ex_rest 104)) (ex_link s) (pr, rs) =
    (ex_link (1453 / 50), pr, rs)"
proof -
  have g: "getGraceBoost ''https://a.com/x'' (1453 / 50) (getData (ex_rest 104)) pr = (0, pr)"
    by (rule getGraceBoost_low) simp
  have near: "\<not> (560 + 80 / 2 - px (c_position (getData (ex_rest 104)))) * (560 + 80 / 2 - px (c_position (getData (ex_rest 104))))
      + (292 + 16 / 2 - py (c_position (getData (ex_rest 104)))) * (292 + 16 / 2 - py (c_position (getData (ex_rest 104)))) > (250000::real)"
    by (simp add: cursor_rest)
  show ?thesis
    unfolding scoreLink_def Let_def
    using near
    by (simp add: ex_link_fields ex_page_fields breakdown_values(3) [OF assms] total_values g)
qed

lemma batch_1:
  "calculateScores (ex_page 1000 600) (getData (ex_rest 600)) (new_predictor\<lparr>links := [ex_link 0]\<rparr>)
    = \<lparr>returned = Some [\<lparr>res_url = ''https://a.com/x'', res_element = 1, res_score = 89\<rparr>],
       sent = Some [\<lparr>link_url = ''https://a.com/x'', link_score = 89\<rparr>],
       after = ex_st1\<rparr>"
  by (simp add: calculateScores_def interval ex_page_fields new_predictor_def scoreLink_on
      getGraceBoost_def rest_speed ex_st1_def)

lemma batch_2:
  "calculateScores (ex_page 2000 616) (getData (ex_rest 616)) ex_st1
    = \<lparr>returned = Some [\<lparr>res_url = ''https://a.com/x'', res_element = 1, res_score = 89\<rparr>],
       sent = Some [\<lparr>link_url = ''https://a.com/x'', link_score = 89\<rparr>],
       after = ex_st2\<rparr>"
  by (simp add: calculateScores_def interval ex_page_fields ex_st1_def scoreLink_near
      getGraceBoost_def rest_speed ex_st2_def)

lemma batch_far:
  "calculateScores (ex_page 2000 104) (getData (ex_rest 104)) ex_st1
    = \<lparr>returned = Some [], sent = None, after = ex_st_far\<rparr>"
  by (simp add: calculateScores_def interval ex_page_fields ex_st1_def scoreLink_far
      ex_st_far_def)

lemma run_1: "run_events [CatalogueChange [ex_link 0], ex_batch 1000 600] new_predictor = ex_st1"
  by (simp add: ex_batch_def batch_1)

lemma run_2: "run_events [CatalogueChange [ex_link 0], ex_batch 1000 600, ex_batch 2000 616] new_predictor = ex_st2"
  by (simp add: ex_batch_def batch_1 batch_2)

lemma run_far: "run_events [CatalogueChange [ex_link 0], ex_batch 1000 600, ex_batch 2000 104] new_predictor = ex_st_far"
  by (simp add: ex_batch_def batch_1 batch_far)


lemma ex_runs:
  "run_events ex_events_1 new_predictor = ex_st1"
  "run_events ex_events_2 new_predictor = ex_st2"
  "run_events ex_events_far new_predictor = ex_st_far"
  unfolding ex_events_1_def ex_events_2_def ex_events_far_def
  by (rule run_1 run_2 run_far)+

subsection \<open>Link predictor: the claims\<close>

text \<open>
  C5 (amended). A catalogue entry whose final score is at most 30 is not written: the turn
  of the loop that scores it leaves the score table and the results as they were, so a
  record stored earlier under its URL stays. After a batch, every entry of the score
  table is either unchanged or was written by this batch with a score above 30, and every
  returned result has a score above 30.
\<close>

theorem C5_low_scores_not_written:
  "(l_score (fst (scoreLink pg cd d (pr, rs))) \<le> 30 \<longrightarrow>
      scores (fst (snd (scoreLink pg cd d (pr, rs)))) = scores pr
      \<and> snd (snd (scoreLink pg cd d (pr, rs))) = rs)
   \<and> (scores (after (calculateScores pg cd pr)) url = scores pr url
       \<or> (\<exists>r. scores (after (calculateScores pg cd pr)) url = Some r
              \<and> 30 < s_score r \<and> s_timestamp r = e_now pg))
   \<and> (returned (calculateScores pg cd pr) = Some ranked \<and> x \<in> set ranked \<longrightarrow> 30 < res_score x)"
proof (intro conjI impI)
  assume low: "l_score (fst (scoreLink pg cd d (pr, rs))) \<le> 30"
  show "scores (fst (snd (scoreLink pg cd d (pr, rs)))) = scores pr"
    and "snd (snd (scoreLink pg cd d (pr, rs))) = rs"
    using low by (cases rule: scoreLink_result [of pg cd d pr rs]; simp)+
next
  show "scores (after (calculateScores pg cd pr)) url = scores pr url
       \<or> (\<exists>r. scores (after (calculateScores pg cd pr)) url = Some r
              \<and> 30 < s_score r \<and> s_timestamp r = e_now pg)"
    using calculateScores_invariants [of pr pg cd] unfolding only_high_written_def by blast
next
  assume "returned (calculateScores pg cd pr) = Some ranked \<and> x \<in> set ranked"
  then show "30 < res_score x"
    using calculateScores_invariants [of pr pg cd] unfolding results_in_range_def by blast
qed

theorem C5_low_scores_not_written_witness:
  "l_score (fst (scoreLink (ex_page 2000 104) (getData (ex_rest 104)) (ex_link 89) (ex_st1, [])))
     = 1453 / 50
   \<and> (1453 / 50 :: real) \<le> 30
   \<and> scores (fst (snd (scoreLink (ex_page 2000 104) (getData (ex_rest 104)) (ex_link 89)
         (ex_st1, [])))) = scores ex_st1
   \<and> returned (calculateScores (ex_page 2000 616) (getData (ex_rest 616)) ex_st1)
       = Some [\<lparr>res_url = ''https://a.com/x'', res_element = 1, res_score = 89\<rparr>]
   \<and> 30 < res_score \<lparr>res_url = ''https://a.com/x'', res_element = 1, res_score = 89\<rparr>
   \<and> map_option s_score
         (scores (after (calculateScores (ex_page 2000 616) (getData (ex_rest 616)) ex_st1))
            ''https://a.com/x'') = Some 89"
proof -
  have h: "historyCache ex_st1 ''https://a.com/x'' = None"
    by (simp add: ex_st1_def)
  have low: "l_score (fst (scoreLink (ex_page 2000 104) (getData (ex_rest 104)) (ex_link 89)
      (ex_st1, []))) = 1453 / 50"
    by (simp add: scoreLink_far [OF h] ex_link_score)
  have r: "returned (calculateScores (ex_page 2000 616) (getData (ex_rest 616)) ex_st1)
       = Some [\<lparr>res_url = ''https://a.com/x'', res_element = 1, res_score = 89\<rparr>]"
    by (simp add: batch_2)
  have a: "map_option s_score
         (scores (after (calculateScores (ex_page 2000 616) (getData (ex_rest 616)) ex_st1))
            ''https://a.com/x'') = Some 89"
    by (simp add: batch_2 ex_st2_def)
  show ?thesis
    using low r a
      C5_low_scores_not_written [where pg = "ex_page 2000 104" and cd = "getData (ex_rest 104)"
        and d = "ex_link 89" and pr = ex_st1 and rs = "[]"]
      C5_low_scores_not_written [where pg = "ex_page 2000 616" and cd = "getData (ex_rest 616)"
        and pr = ex_st1
        and ranked = "[\<lparr>res_url = ''https://a.com/x'', res_element = 1, res_score = 89\<rparr>]"
        and x = "\<lparr>res_url = ''https://a.com/x'', res_element = 1, res_score = 89\<rparr>"]
    by simp
qed

text \<open>
  The claim as stated fails: the link is recorded with score 89 by a first batch; a second
  batch, with the cursor 496 px away, gives it the final score 29.06, and the score table
  still holds the record of 89 under its URL.
\<close>

theorem C5_stale_record_remains:
  "links (run_events ex_events_far new_predictor) = [ex_link (1453 / 50)]
   \<and> l_url (ex_link (1453 / 50)) = ''https://a.com/x''
   \<and> l_score (ex_link (1453 / 50)) \<le> 30
   \<and> map_option s_score (scores (run_events ex_events_far new_predictor) ''https://a.com/x'')
       = Some 89"
  by (simp add: ex_runs ex_st_far_def ex_link_def)

text \<open>
  C6. In every state the predictor can reach, a URL has at most one pending grace timeout;
  and while one is pending, \<^verbatim>\<open>_getGraceBoost\<close> for that URL returns 0 and leaves the
  predictor as it is: no second timeout, and the first one is neither replaced nor renewed.
\<close>

theorem C6_single_grace_timer:
  "timersFor (run_events evs new_predictor) url \<le> 1
   \<and> (timersFor (run_events evs new_predictor) url = 1 \<longrightarrow>
        getGraceBoost url currentScore cd (run_events evs new_predictor)
          = (0, run_events evs new_predictor))"
proof -
  have t: "timers_ok (run_events evs new_predictor)"
    by (rule reachable_invariants)
  show ?thesis
    using timersFor_le_1 [OF t] timersFor_pos_active [OF t] getGraceBoost_active
    by force
qed

theorem C6_single_grace_timer_witness:
  "timersFor (run_events ex_events_2 new_predictor) ''https://a.com/x'' = 1
   \<and> c_speed (getData (ex_rest 616)) < 50
   \<and> (2713 / 50 :: real) > 50
   \<and> map_option s_score (scores (run_events ex_events_2 new_predictor) ''https://a.com/x'')
       = Some 89
   \<and> getGraceBoost ''https://a.com/x'' (2713 / 50) (getData (ex_rest 616))
         (run_events ex_events_2 new_predictor)
       = (0, run_events ex_events_2 new_predictor)"
proof -
  have t: "timersFor (run_events ex_events_2 new_predictor) ''https://a.com/x'' = 1"
    by (simp add: ex_runs ex_st2_def timersFor_def)
  have q: "c_speed (getData (ex_rest 616)) < 50 \<and> (2713 / 50 :: real) > 50
      \<and> map_option s_score (scores (run_events ex_events_2 new_predictor) ''https://a.com/x'')
          = Some 89"
    by (simp add: ex_runs ex_st2_def rest_speed)
  from t C6_single_grace_timer [of ex_events_2 "''https://a.com/x''" "2713 / 50"
      "getData (ex_rest 616)"]
  have "getGraceBoost ''https://a.com/x'' (2713 / 50) (getData (ex_rest 616))
         (run_events ex_events_2 new_predictor)
       = (0, run_events ex_events_2 new_predictor)"
    by blast
  then show ?thesis
    using t q by blast
qed

text \<open>
  C7. In every state the predictor can reach, every score stored in the score table lies
  in \<open>[0, 100]\<close>, and so does every score of a message a batch sends to the service
  worker, whatever the page and the cursor are.
\<close>

theorem C7_scores_in_range:
  "(scores (run_events evs new_predictor) url = Some r \<longrightarrow> 0 \<le> s_score r \<and> s_score r \<le> 100)
   \<and> (sent (calculateScores pg cd (run_events evs new_predictor)) = Some ms \<and> m \<in> set ms
        \<longrightarrow> 0 \<le> link_score m \<and> link_score m \<le> 100)"
proof -
  have a: "scores_in_range (run_events evs new_predictor)"
    by (rule reachable_invariants)
  have b: "\<forall>ms. sent (calculateScores pg cd (run_events evs new_predictor)) = Some ms \<longrightarrow>
         (\<forall>m \<in> set ms. 30 < link_score m \<and> link_score m \<le> 100)"
    using calculateScores_invariants [of "run_events evs new_predictor" pg cd] by blast
  show ?thesis
  proof (intro conjI impI)
    assume "scores (run_events evs new_predictor) url = Some r"
    then show "0 \<le> s_score r" "s_score r \<le> 100"
      using a unfolding scores_in_range_def by blast+
  next
    assume h: "sent (calculateScores pg cd (run_events evs new_predictor)) = Some ms \<and> m \<in> set ms"
    then have "30 < link_score m \<and> link_score m \<le> 100" using b by blast
    then show "0 \<le> link_score m" "link_score m \<le> 100" by simp_all
  qed
qed

theorem C7_scores_in_range_witness:
  "scores (run_events ex_events_1 new_predictor) ''https://a.com/x''
     = Some \<lparr>s_score = 89, s_timestamp = 1000, s_breakdown = b_on\<rparr>
   \<and> 0 \<le> s_score \<lparr>s_score = 89, s_timestamp = 1000, s_breakdown = b_on\<rparr>
   \<and> s_score \<lparr>s_score = 89, s_timestamp = 1000, s_breakdown = b_on\<rparr> \<le> 100
   \<and> sent (calculateScores (ex_page 2000 616) (getData (ex_rest 616))
         (run_events ex_events_1 new_predictor))
       = Some [\<lparr>link_url = ''https://a.com/x'', link_score = 89\<rparr>]
   \<and> 0 \<le> link_score \<lparr>link_url = ''https://a.com/x'', link_score = 89\<rparr>
   \<and> link_score \<lparr>link_url = ''https://a.com/x'', link_score = 89\<rparr> \<le> 100"
proof -
  have s: "scores (run_events ex_events_1 new_predictor) ''https://a.com/x''
     = Some \<lparr>s_score = 89, s_timestamp = 1000, s_breakdown = b_on\<rparr>"
    by (simp add: ex_runs ex_st1_def)
  have m: "sent (calculateScores (ex_page 2000 616) (getData (ex_rest 616))
         (run_events ex_events_1 new_predictor))
       = Some [\<lparr>link_url = ''https://a.com/x'', link_score = 89\<rparr>]"
    by (simp add: ex_runs batch_2)
  show ?thesis
    using s m
      C7_scores_in_range [of ex_events_1 "''https://a.com/x''"
        "\<lparr>s_score = 89, s_timestamp = 1000, s_breakdown = b_on\<rparr>"
        "ex_page 2000 616" "getData (ex_rest 616)"
        "[\<lparr>link_url = ''https://a.com/x'', link_score = 89\<rparr>]"
        "\<lparr>link_url = ''https://a.com/x'', link_score = 89\<rparr>"]
    by simp
qed

text \<open>
  C10. Every stored score is at most 100, in every reachable state and after every turn of
  the loop. Hence, when the grace boost of a processed entry is not zero, the composite
  plus the boost is exactly the score stored before for the URL, the clamp at 100 leaves
  it alone, and that score is what the entry and the new record carry.
\<close>

theorem C10_boost_restores_previous:
  "scores_in_range (run_events evs new_predictor)
   \<and> (scores_in_range pr \<longrightarrow> scores_in_range (fst (snd (scoreLink pg cd d (pr, rs)))))
   \<and> (scores_in_range pr \<and> l_isVisible d
        \<and> (r_left (l_rect d) + r_width (l_rect d) / 2 - px (c_position cd))
            * (r_left (l_rect d) + r_width (l_rect d) / 2 - px (c_position cd))
          + (r_top (l_rect d) + r_height (l_rect d) / 2 - py (c_position cd))
            * (r_top (l_rect d) + r_height (l_rect d) / 2 - py (c_position cd)) \<le> 250000
        \<and> fst (getGraceBoost (l_url d) (totalScore (linkBreakdown pg cd pr d)) cd pr) \<noteq> 0
      \<longrightarrow> (\<exists>prev. scores pr (l_url d) = Some prev
             \<and> totalScore (linkBreakdown pg cd pr d)
                 + fst (getGraceBoost (l_url d) (totalScore (linkBreakdown pg cd pr d)) cd pr)
               = s_score prev
             \<and> l_score (fst (scoreLink pg cd d (pr, rs))) = s_score prev
             \<and> map_option s_score (scores (fst (snd (scoreLink pg cd d (pr, rs)))) (l_url d))
               = Some (s_score prev)))"
proof (intro conjI impI)
  show "scores_in_range (run_events evs new_predictor)"
    by (rule reachable_invariants)
next
  assume "scores_in_range pr"
  then show "scores_in_range (fst (snd (scoreLink pg cd d (pr, rs))))"
    by (rule scoreLink_scores_in_range)
next
  define t where "t = totalScore (linkBreakdown pg cd pr d)"
  define g where "g = getGraceBoost (l_url d) t cd pr"
  assume h: "scores_in_range pr \<and> l_isVisible d
        \<and> (r_left (l_rect d) + r_width (l_rect d) / 2 - px (c_position cd))
            * (r_left (l_rect d) + r_width (l_rect d) / 2 - px (c_position cd))
          + (r_top (l_rect d) + r_height (l_rect d) / 2 - py (c_position cd))
            * (r_top (l_rect d) + r_height (l_rect d) / 2 - py (c_position cd)) \<le> 250000
        \<and> fst (getGraceBoost (l_url d) (totalScore (linkBreakdown pg cd pr d)) cd pr) \<noteq> 0"
  then have nz: "fst g \<noteq> 0" by (simp add: g_def t_def)
  from getGraceBoost_nonzero [OF nz [unfolded g_def]]
  obtain prev where p: "scores pr (l_url d) = Some prev" "s_score prev > t" "t > 50"
      "fst g = s_score prev - t"
    unfolding g_def by blast
  have le: "s_score prev \<le> 100"
    using h p(1) unfolding scores_in_range_def by blast
  have sum: "t + fst g = s_score prev"
    using p(4) by simp
  have f: "min 100 (t + fst g) = s_score prev"
    using sum le by simp
  have hi: "30 < s_score prev"
    using p(2,3) by linarith
  have sl: "scoreLink pg cd d (pr, rs) =
      (d\<lparr>l_score := s_score prev\<rparr>,
       (snd g)\<lparr>scores := (scores (snd g))(l_url d \<mapsto>
          \<lparr>s_score = s_score prev, s_timestamp = e_now pg, s_breakdown = linkBreakdown pg cd pr d\<rparr>)\<rparr>,
       rs @ [\<lparr>res_url = l_url d, res_element = l_element d, res_score = s_score prev\<rparr>])"
    using h f hi unfolding g_def t_def
    by (simp add: scoreLink_def Let_def not_less [symmetric])
  show "\<exists>prev. scores pr (l_url d) = Some prev
             \<and> totalScore (linkBreakdown pg cd pr d)
                 + fst (getGraceBoost (l_url d) (totalScore (linkBreakdown pg cd pr d)) cd pr)
               = s_score prev
             \<and> l_score (fst (scoreLink pg cd d (pr, rs))) = s_score prev
             \<and> map_option s_score (scores (fst (snd (scoreLink pg cd d (pr, rs)))) (l_url d))
               = Some (s_score prev)"
    using p(1) sum unfolding sl g_def t_def by simp
qed


theorem C10_boost_restores_previous_witness:
  "scores_in_range (run_events ex_events_1 new_predictor)
   \<and> l_isVisible (ex_link 89)
   \<and> fst (getGraceBoost (l_url (ex_link 89))
        (totalScore (linkBreakdown (ex_page 2000 616) (getData (ex_rest 616)) ex_st1 (ex_link 89)))
        (getData (ex_rest 616)) ex_st1) = 1737 / 50
   \<and> map_option s_score (scores ex_st1 (l_url (ex_link 89))) = Some 89
   \<and> l_score (fst (scoreLink (ex_page 2000 616) (getData (ex_rest 616)) (ex_link 89)
        (ex_st1, []))) = 89
   \<and> map_option s_score (scores (fst (snd (scoreLink (ex_page 2000 616) (getData (ex_rest 616))
        (ex_link 89) (ex_st1, [])))) (l_url (ex_link 89))) = Some 89"
proof -
  have h: "historyCache ex_st1 ''https://a.com/x'' = None"
    by (simp add: ex_st1_def)
  have inv: "scores_in_range ex_st1"
    by (simp add: scores_in_range_def ex_st1_def)
  have vis: "l_isVisible (ex_link 89)"
    by (simp add: ex_link_fields)
  have near: "(r_left (l_rect (ex_link 89)) + r_width (l_rect (ex_link 89)) / 2
                 - px (c_position (getData (ex_rest 616))))
            * (r_left (l_rect (ex_link 89)) + r_width (l_rect (ex_link 89)) / 2
                 - px (c_position (getData (ex_rest 616))))
          + (r_top (l_rect (ex_link 89)) + r_height (l_rect (ex_link 89)) / 2
                 - py (c_position (getData (ex_rest 616))))
            * (r_top (l_rect (ex_link 89)) + r_height (l_rect (ex_link 89)) / 2
                 - py (c_position (getData (ex_rest 616)))) \<le> 250000"
    by (simp add: ex_link_fields cursor_rest)
  have boost: "fst (getGraceBoost (l_url (ex_link 89))
        (totalScore (linkBreakdown (ex_page 2000 616) (getData (ex_rest 616)) ex_st1 (ex_link 89)))
        (getData (ex_rest 616)) ex_st1) = 1737 / 50"
    unfolding breakdown_values(2) [OF h] total_values ex_link_fields
    by (simp add: getGraceBoost_def rest_speed ex_st1_def)
  have prev: "map_option s_score (scores ex_st1 (l_url (ex_link 89))) = Some 89"
    by (simp add: ex_link_fields ex_st1_def)
  have nz: "fst (getGraceBoost (l_url (ex_link 89))
        (totalScore (linkBreakdown (ex_page 2000 616) (getData (ex_rest 616)) ex_st1 (ex_link 89)))
        (getData (ex_rest 616)) ex_st1) \<noteq> 0"
    unfolding boost by simp
  from C10_boost_restores_previous [where evs = ex_events_1 and pr = ex_st1
      and pg = "ex_page 2000 616" and cd = "getData (ex_rest 616)" and d = "ex_link 89"
      and rs = "[]"] inv vis near nz
  obtain p where p: "scores ex_st1 (l_url (ex_link 89)) = Some p"
      "l_score (fst (scoreLink (ex_page 2000 616) (getData (ex_rest 616)) (ex_link 89)
        (ex_st1, []))) = s_score p"
      "map_option s_score (scores (fst (snd (scoreLink (ex_page 2000 616) (getData (ex_rest 616))
        (ex_link 89) (ex_st1, [])))) (l_url (ex_link 89))) = Some (s_score p)"
    by blast
  have "s_score p = 89"
    using prev p(1) by simp
  then show ?thesis
    using inv vis boost prev p(2,3) by (simp add: ex_runs)
qed


end
